theory Spec2Isabelle
  imports Main
begin

section \<open>Strings of the control channel\<close>

text \<open>
  The control socket is read with \<^verbatim>\<open>setEncoding('utf8')\<close>, so every \<^verbatim>\<open>'data'\<close> event
  carries a JavaScript string. A string is modelled as a \<^typ>\<open>string\<close> (a list of
  characters); the model covers the strings whose code units are below 256.
\<close>

definition CR :: char where
  "CR = CHR 0x0D"

definition LF :: char where
  "LF = CHR 0x0A"

section \<open>Splitting at the terminator\<close>

text \<open>
  \<open>split_crlf\<close> is \<^verbatim>\<open>String.prototype.split\<close> with the separator \<^verbatim>\<open>'\r\n'\<close>, as the
  \<^verbatim>\<open>'data'\<close> handler of \<^verbatim>\<open>connect\<close> calls it: it scans from the left, cuts at every
  separator it meets and always returns at least one piece.
\<close>

fun prepend :: "char \<Rightarrow> string list \<Rightarrow> string list" where
  "prepend c [] = [[c]]"
| "prepend c (p # ps) = (c # p) # ps"

fun split_crlf :: "string \<Rightarrow> string list" where
  "split_crlf [] = [[]]"
| "split_crlf [c] = [[c]]"
| "split_crlf (c # d # cs) =
     (if c = CR \<and> d = LF then [] # split_crlf cs else prepend c (split_crlf (d # cs)))"


section \<open>JavaScript primitives used by the client\<close>

text \<open>
  \<^verbatim>\<open>s.charAt(i)\<close> is the empty string past the end, \<^verbatim>\<open>s.substring(0, 3)\<close> is
  \<^term>\<open>take 3 s\<close> and \<^verbatim>\<open>s.substring(4)\<close> is \<^term>\<open>drop 4 s\<close>.
\<close>

definition charAt :: "nat \<Rightarrow> string \<Rightarrow> string" where
  "charAt i s = take 1 (drop i s)"

definition startsWith :: "string \<Rightarrow> string \<Rightarrow> bool" where
  "startsWith p s = (take (length p) s = p)"

text \<open>\<^verbatim>\<open>s.includes(sub)\<close>\<close>

fun includes_str :: "string \<Rightarrow> string \<Rightarrow> bool" where
  "includes_str sub [] = (sub = [])"
| "includes_str sub (c # cs) = (startsWith sub (c # cs) \<or> includes_str sub cs)"

text \<open>
  \<^verbatim>\<open>parseInt(s)\<close> without a radix: leading white space is skipped, then an optional sign,
  then an optional \<^verbatim>\<open>0x\<close>/\<^verbatim>\<open>0X\<close> that selects radix 16; the longest run of digits of the
  radix is the value, and no digit at all is \<^verbatim>\<open>NaN\<close> (here \<^term>\<open>None\<close>). A JavaScript
  number is a double: the integer of the model is the exact value wherever it is below
  \<open>2\<^sup>5\<^sup>3\<close>, which covers every use on three characters.
\<close>

definition digit_value :: "char \<Rightarrow> nat option" where
  "digit_value c =
     (let n = (of_char c :: nat)
      in if 48 \<le> n \<and> n \<le> 57 then Some (n - 48)
         else if 97 \<le> n \<and> n \<le> 102 then Some (n - 87)
         else if 65 \<le> n \<and> n \<le> 70 then Some (n - 55)
         else None)"

definition radix_digit :: "nat \<Rightarrow> char \<Rightarrow> bool" where
  "radix_digit R c = (case digit_value c of Some v \<Rightarrow> v < R | None \<Rightarrow> False)"

definition str_white_space :: "char \<Rightarrow> bool" where
  "str_white_space c = ((of_char c :: nat) \<in> {9, 10, 11, 12, 13, 32, 160})"

fun radix_value :: "nat \<Rightarrow> nat \<Rightarrow> string \<Rightarrow> nat" where
  "radix_value R acc [] = acc"
| "radix_value R acc (c # cs) =
     radix_value R (acc * R + (case digit_value c of Some v \<Rightarrow> v | None \<Rightarrow> 0)) cs"

definition parseInt :: "string \<Rightarrow> int option" where
  "parseInt input =
     (let s = dropWhile str_white_space input;
          negative = startsWith ''-'' s;
          s1 = (if startsWith ''+'' s \<or> startsWith ''-'' s then drop 1 s else s);
          hex = (startsWith ''0x'' s1 \<or> startsWith ''0X'' s1);
          R = (if hex then 16 else 10);
          s2 = (if hex then drop 2 s1 else s1);
          z = takeWhile (radix_digit R) s2
      in if z = [] then None
         else Some ((if negative then - 1 else 1) * int (radix_value R 0 z)))"

text \<open>A number inside a template literal: decimal digits, or \<^verbatim>\<open>NaN\<close>.\<close>

definition digit_char :: "nat \<Rightarrow> char" where
  "digit_char d = ''0123456789'' ! d"

fun string_of_nat :: "nat \<Rightarrow> string" where
  "string_of_nat n =
     (if n < 10 then [digit_char n] else string_of_nat (n div 10) @ [digit_char (n mod 10)])"

definition string_of_number :: "int option \<Rightarrow> string" where
  "string_of_number x =
     (case x of
        None \<Rightarrow> ''NaN''
      | Some i \<Rightarrow> if i < 0 then CHR ''-'' # string_of_nat (nat (- i)) else string_of_nat (nat i))"

text \<open>A comparison \<^verbatim>\<open>code >= lo && code < hi\<close>; every comparison with \<^verbatim>\<open>NaN\<close> is false.\<close>

definition code_between :: "int \<Rightarrow> int \<Rightarrow> int option \<Rightarrow> bool" where
  "code_between lo hi c = (case c of None \<Rightarrow> False | Some n \<Rightarrow> lo \<le> n \<and> n < hi)"

section \<open>The control channel: \<^verbatim>\<open>_sendCommand\<close> and the \<^verbatim>\<open>'response'\<close> listeners\<close>

text \<open>
  Every failure of the client is a plain \<^verbatim>\<open>new Error(message)\<close>; the error classes of the
  specification are the message forms: \<^verbatim>\<open>FTP Error <code>: <message>\<close> for a reply the
  server sent, \<^verbatim>\<open>Command timeout: <command>\<close>, \<^verbatim>\<open>Failed to parse PASV response\<close> and
  \<^verbatim>\<open>Not connected\<close>.
\<close>

datatype error = Error string

record response =
  code :: "int option"
  message :: string
  raw :: string

text \<open>How a promise was settled: \<^verbatim>\<open>resolve(value)\<close> or \<^verbatim>\<open>reject(error)\<close>.\<close>

datatype outcome = Resolved response | Rejected error

text \<open>\<^verbatim>\<open>command.startsWith('PASS ') ? 'PASS ********' : command\<close>\<close>

definition maskPassword :: "string \<Rightarrow> string" where
  "maskPassword command = (if startsWith ''PASS '' command then ''PASS ********'' else command)"

text \<open>
  One call of \<^verbatim>\<open>_sendCommand\<close> leaves a closure \<^verbatim>\<open>responseHandler\<close> registered on the
  \<^verbatim>\<open>'response'\<close> event and a timer. \<open>p_id\<close> names the promise the call returned,
  \<open>p_timer\<close> tells whether the timer \<^verbatim>\<open>timeoutId\<close> is still armed.
\<close>

record pending =
  p_id :: nat
  p_command :: string
  p_allowPreliminary :: bool
  p_timer :: bool

datatype handled = Keep pending | Settle outcome

text \<open>
  The branch that ends the command:
  \<^verbatim>\<open>
  if (code >= 200 && code < 400) { resolve({ code, message, raw: line }); }
  else { reject(new Error(`FTP Error ${code}: ${message}`)); }
  \<close>
\<close>

definition settle_reply :: "string \<Rightarrow> outcome" where
  "settle_reply line =
     (let code = parseInt (take 3 line);
          message = drop 4 line
      in if code_between 200 400 code
         then Resolved \<lparr>code = code, message = message, raw = line\<rparr>
         else Rejected (Error (''FTP Error '' @ string_of_number code @ '': '' @ message)))"

text \<open>
  \<^verbatim>\<open>
  const responseHandler = (line) => {
    clearTimeout(timeoutId);
    const code = parseInt(line.substring(0, 3));
    const message = line.substring(4);
    if (line.charAt(3) === ' ') {
      if (code >= 100 && code < 200 && allowPreliminary) { return; }
      clearTimeout(timeoutId);
      this.removeListener('response', responseHandler);
      ... resolve or reject ...
    }
  };
  \<close>
  The first statement disarms the timer on every line, whatever the line is.
\<close>

definition responseHandler :: "pending \<Rightarrow> string \<Rightarrow> handled" where
  "responseHandler p line =
     (let p' = p\<lparr>p_timer := False\<rparr>;
          code = parseInt (take 3 line)
      in if charAt 3 line = '' '' then
           if code_between 100 200 code \<and> p_allowPreliminary p then Keep p'
           else Settle (settle_reply line)
         else Keep p')"

text \<open>
  The client: the fields of the class that the commands read and write, the registered
  \<open>responseHandler\<close> closures in the order of registration, every call of
  \<^verbatim>\<open>resolve\<close>/\<^verbatim>\<open>reject\<close> so far (with the promise it settled), and what was written
  to the socket.
\<close>

record client =
  connected :: bool
  commandCount :: nat
  lastCommand :: "string option"
  listeners :: "pending list"
  settlements :: "(nat \<times> outcome) list"
  next_promise :: nat
  written :: "string list"

definition new_client :: client where
  "new_client = \<lparr>connected = False, commandCount = 0, lastCommand = None, listeners = [],
     settlements = [], next_promise = 0, written = []\<rparr>"

text \<open>The client once the TCP connection stands (\<^verbatim>\<open>this.connected = true\<close>).\<close>

definition connected_client :: client where
  "connected_client = new_client\<lparr>connected := True\<rparr>"

text \<open>The state of a promise: the first settlement counts, \<^term>\<open>None\<close> is pending.\<close>

definition promise_state :: "client \<Rightarrow> nat \<Rightarrow> outcome option" where
  "promise_state c pid = map_of (settlements c) pid"

text \<open>
  \<^verbatim>\<open>
  _sendCommand(command, allowPreliminary = false) {
    return new Promise((resolve, reject) => {
      if (!this.connected) { return reject(new Error('Not connected')); }
      this._commandCount++;
      this._lastCommand = command;
      ...
      const timeoutId = setTimeout(() => { ... }, this.timeout);
      const responseHandler = ...
      this.on('response', responseHandler);
      this.socket.write(command + '\r\n');
    });
  }
  \<close>
  The function returns the promise and the client after the call. Nothing in it looks at
  the listeners already registered.
\<close>

definition sendCommand :: "string \<Rightarrow> bool \<Rightarrow> client \<Rightarrow> nat \<times> client" where
  "sendCommand command allowPreliminary c =
     (let pid = next_promise c
      in if \<not> connected c
         then (pid, c\<lparr>settlements := settlements c @ [(pid, Rejected (Error ''Not connected''))],
                       next_promise := pid + 1\<rparr>)
         else (pid, c\<lparr>commandCount := commandCount c + 1,
                       lastCommand := Some command,
                       listeners := listeners c @
                         [\<lparr>p_id = pid, p_command = command,
                           p_allowPreliminary = allowPreliminary, p_timer = True\<rparr>],
                       written := written c @ [command @ [CR, LF]],
                       next_promise := pid + 1\<rparr>))"

text \<open>
  \<^verbatim>\<open>this.emit('response', line)\<close>: every registered handler runs on the line, in the order
  of registration; a handler that settles its promise removes itself.
\<close>

fun dispatch :: "string \<Rightarrow> pending list \<Rightarrow> pending list \<times> (nat \<times> outcome) list" where
  "dispatch line [] = ([], [])"
| "dispatch line (p # ps) =
     (case dispatch line ps of (kept, outs) \<Rightarrow>
        (case responseHandler p line of
           Keep p' \<Rightarrow> (p' # kept, outs)
         | Settle out \<Rightarrow> (kept, (p_id p, out) # outs)))"

definition emit_response :: "string \<Rightarrow> client \<Rightarrow> client" where
  "emit_response line c =
     (case dispatch line (listeners c) of (kept, outs) \<Rightarrow>
        c\<lparr>listeners := kept, settlements := settlements c @ outs\<rparr>)"

text \<open>
  The timer of a command fires, if it is still armed:
  \<^verbatim>\<open>
  this.removeListener('response', responseHandler);
  reject(new Error(`Command timeout: ${cmdToLog}`));
  \<close>
\<close>

definition command_timeout :: "nat \<Rightarrow> client \<Rightarrow> client" where
  "command_timeout pid c =
     (case find (\<lambda>p. p_id p = pid \<and> p_timer p) (listeners c) of
        None \<Rightarrow> c
      | Some p \<Rightarrow>
          c\<lparr>listeners := filter (\<lambda>q. p_id q \<noteq> pid) (listeners c),
            settlements := settlements c @
              [(pid, Rejected (Error (''Command timeout: '' @ maskPassword (p_command p))))]\<rparr>)"

text \<open>
  What happens to a client between two calls: a complete reply line is emitted, or the
  deadline of a command elapses.
\<close>

datatype event = Response string | Timeout nat

fun step :: "event \<Rightarrow> client \<Rightarrow> client" where
  "step (Response line) c = emit_response line c"
| "step (Timeout pid) c = command_timeout pid c"

fun run :: "event list \<Rightarrow> client \<Rightarrow> client" where
  "run [] c = c"
| "run (e # es) c = run es (step e c)"

text \<open>
  Promise names are handed out in order, so in every client that the operations produce
  from \<^term>\<open>new_client\<close> the names in use lie below \<^term>\<open>next_promise\<close>.
\<close>

definition wf_client :: "client \<Rightarrow> bool" where
  "wf_client c =
     ((\<forall>p \<in> set (listeners c). p_id p < next_promise c) \<and>
      (\<forall>s \<in> set (settlements c). fst s < next_promise c))"


section \<open>Reply framing: the \<^verbatim>\<open>'data'\<close> handler of \<^verbatim>\<open>connect\<close>\<close>







section \<open>Passive mode: \<^verbatim>\<open>_enterPassiveMode\<close>\<close>

text \<open>
  \<^verbatim>\<open>
  async _enterPassiveMode() {
    const response = await this._sendCommand('PASV');
    const match = response.message.match(/\((\d+),(\d+),(\d+),(\d+),(\d+),(\d+)\)/);
    if (!match) { throw new Error('Failed to parse PASV response'); }
    const host = `${match[1]}.${match[2]}.${match[3]}.${match[4]}`;
    const port = parseInt(match[5]) * 256 + parseInt(match[6]);
    return { host, port };
  }
  \<close>
  Arithmetic on numbers carries \<^verbatim>\<open>NaN\<close> along.
\<close>


definition js_times :: "int option \<Rightarrow> int option \<Rightarrow> int option" where
  "js_times a b = (case (a, b) of (Some x, Some y) \<Rightarrow> Some (x * y) | _ \<Rightarrow> None)"

definition js_plus :: "int option \<Rightarrow> int option \<Rightarrow> int option" where
  "js_plus a b = (case (a, b) of (Some x, Some y) \<Rightarrow> Some (x + y) | _ \<Rightarrow> None)"

text \<open>The value \<^verbatim>\<open>{ host, port }\<close>.\<close>

record endpoint =
  host :: string
  port :: "int option"

text \<open>
  The regular expression. \<^verbatim>\<open>\d\<close> is a decimal digit. \<^verbatim>\<open>\d+\<close> is greedy and is followed
  by a character that is no digit, so at a given start it can only match the whole run of
  digits: \<open>digits_then c\<close> matches \<^verbatim>\<open>(\d+)\<close> and then the character \<open>c\<close>.
  \<open>match_at\<close> matches the whole expression at the start of a string, and
  \<open>pasv_match\<close> is \<^verbatim>\<open>String.prototype.match\<close>: the match at the leftmost position that
  has one, with its six groups.
\<close>

definition is_digit :: "char \<Rightarrow> bool" where
  "is_digit c = radix_digit 10 c"

definition digits_then :: "char \<Rightarrow> string \<Rightarrow> (string \<times> string) option" where
  "digits_then c s =
     (let g = takeWhile is_digit s; r = dropWhile is_digit s
      in if g \<noteq> [] \<and> r \<noteq> [] \<and> hd r = c then Some (g, tl r) else None)"

type_synonym groups = "string \<times> string \<times> string \<times> string \<times> string \<times> string"

definition match_at :: "string \<Rightarrow> groups option" where
  "match_at s =
     (case s of
        [] \<Rightarrow> None
      | c # r0 \<Rightarrow>
          if c \<noteq> CHR ''('' then None
          else case digits_then CHR '','' r0 of None \<Rightarrow> None | Some (g1, r1) \<Rightarrow>
               case digits_then CHR '','' r1 of None \<Rightarrow> None | Some (g2, r2) \<Rightarrow>
               case digits_then CHR '','' r2 of None \<Rightarrow> None | Some (g3, r3) \<Rightarrow>
               case digits_then CHR '','' r3 of None \<Rightarrow> None | Some (g4, r4) \<Rightarrow>
               case digits_then CHR '','' r4 of None \<Rightarrow> None | Some (g5, r5) \<Rightarrow>
               case digits_then CHR '')'' r5 of None \<Rightarrow> None | Some (g6, r6) \<Rightarrow>
               Some (g1, g2, g3, g4, g5, g6))"

fun pasv_match :: "string \<Rightarrow> groups option" where
  "pasv_match [] = None"
| "pasv_match (c # cs) =
     (case match_at (c # cs) of Some m \<Rightarrow> Some m | None \<Rightarrow> pasv_match cs)"

text \<open>
  The function from the point where the promise of \<^verbatim>\<open>PASV\<close> is settled: a rejection is
  thrown on by \<^verbatim>\<open>await\<close>.
\<close>

definition enterPassiveMode :: "outcome \<Rightarrow> error + endpoint" where
  "enterPassiveMode reply =
     (case reply of
        Rejected e \<Rightarrow> Inl e
      | Resolved response \<Rightarrow>
          (case pasv_match (message response) of
             None \<Rightarrow> Inl (Error ''Failed to parse PASV response'')
           | Some (m1, m2, m3, m4, m5, m6) \<Rightarrow>
               Inr \<lparr>host = m1 @ ''.'' @ m2 @ ''.'' @ m3 @ ''.'' @ m4,
                    port = js_plus (js_times (parseInt m5) (Some 256)) (parseInt m6)\<rparr>))"


section \<open>The command layer: \<^verbatim>\<open>lib/commands.js\<close> and \<^verbatim>\<open>lib/utils.js\<close>\<close>

text \<open>
  \<^verbatim>\<open>s.lastIndexOf(c)\<close> is -1 when \<open>c\<close> does not occur, and \<^verbatim>\<open>s.substring(0, i)\<close>
  takes a negative \<open>i\<close> for 0.
\<close>

definition lastIndexOf :: "char \<Rightarrow> string \<Rightarrow> int" where
  "lastIndexOf c s =
     (if c \<in> set s then int (length s) - 1 - int (length (takeWhile (\<lambda>x. x \<noteq> c) (rev s))) else - 1)"

definition substring0 :: "string \<Rightarrow> int \<Rightarrow> string" where
  "substring0 s i = take (nat i) s"

text \<open>\<^verbatim>\<open>s.split(sep)\<close> for a separator of one character.\<close>

fun split_on :: "char \<Rightarrow> string \<Rightarrow> string list" where
  "split_on sep [] = [[]]"
| "split_on sep (c # cs) = (if c = sep then [] # split_on sep cs else prepend c (split_on sep cs))"

text \<open>
  From \<^verbatim>\<open>lib/utils.js\<close>:
  \<^verbatim>\<open>
  function normalizePath(path) {
    return path.replace(/\\/g, '/').replace(/\/+/g, '/');
  }
  function getParentDir(filePath) {
    const normalized = normalizePath(filePath);
    const lastSlash = normalized.lastIndexOf('/');
    if (lastSlash <= 0) { return '/'; }
    return normalized.substring(0, lastSlash);
  }
  \<close>
\<close>

definition backslash :: char where
  "backslash = CHR 0x5C"

fun collapse_slashes :: "string \<Rightarrow> string" where
  "collapse_slashes (c # d # cs) =
     (if c = CHR ''/'' \<and> d = CHR ''/'' then collapse_slashes (d # cs) else c # collapse_slashes (d # cs))"
| "collapse_slashes cs = cs"

definition normalizePath :: "string \<Rightarrow> string" where
  "normalizePath path = collapse_slashes (map (\<lambda>c. if c = backslash then CHR ''/'' else c) path)"

definition getParentDir :: "string \<Rightarrow> string" where
  "getParentDir filePath =
     (let normalized = normalizePath filePath;
          lastSlash = lastIndexOf CHR ''/'' normalized
      in if lastSlash \<le> 0 then ''/'' else substring0 normalized lastSlash)"

text \<open>
  The test \<^verbatim>\<open>/\.[^./\\]+$/.test(path)\<close> of \<^verbatim>\<open>ensureDir\<close>: the path ends in a dot followed
  by one or more characters none of which is a dot, a slash or a backslash.
\<close>

definition has_extension :: "string \<Rightarrow> bool" where
  "has_extension path =
     (let plain = (\<lambda>c. c \<noteq> CHR ''.'' \<and> c \<noteq> CHR ''/'' \<and> c \<noteq> backslash);
          ext = takeWhile plain (rev path);
          front = dropWhile plain (rev path)
      in ext \<noteq> [] \<and> front \<noteq> [] \<and> hd front = CHR ''.'')"

text \<open>
  The match \<^verbatim>\<open>/"(.+)"/\<close> of \<^verbatim>\<open>pwd\<close>: from the leftmost double quote that has a match,
  the longest run without a line terminator that ends before a further double quote.
\<close>

definition line_terminator :: "char \<Rightarrow> bool" where
  "line_terminator c = (c = LF \<or> c = CR)"

definition quoted_at :: "string \<Rightarrow> string option" where
  "quoted_at r =
     (let run = takeWhile (\<lambda>c. \<not> line_terminator c) r;
          j = lastIndexOf CHR 0x22 run
      in if j \<ge> 1 then Some (substring0 run j) else None)"

fun match_quoted :: "string \<Rightarrow> string option" where
  "match_quoted [] = None"
| "match_quoted (c # cs) =
     (if c = CHR 0x22
      then (case quoted_at cs of Some g \<Rightarrow> Some g | None \<Rightarrow> match_quoted cs)
      else match_quoted cs)"

text \<open>
  A promise is pending, fulfilled with a value, or rejected with an error. As the result
  of an \<^verbatim>\<open>async\<close> function, \<^term>\<open>Pending\<close> is a promise that never settles: an
  \<^verbatim>\<open>await\<close> on it never returns, a \<^verbatim>\<open>catch\<close> never sees it.
\<close>

datatype 'a promise = Pending | Fulfilled 'a | Failed error

text \<open>
  The commands call \<^verbatim>\<open>this.connection.sendCommand\<close>, which lives in
  \<^verbatim>\<open>lib/connection.js\<close>; the command layer is modelled over what these calls give back.
  \<open>reply\<close> is the promise of a command as it ends up (fulfilled with the reply, rejected,
  or never settled), given the commands issued before it on the session (a server may
  answer by its history); \<open>listing\<close> is what \<^verbatim>\<open>list(path)\<close> gives back, the whole transfer
  taken as one step. Every function takes the history and returns it extended, with the
  promise it returns as it ends up; \<^verbatim>\<open>await\<close> passes on a rejection and a promise that
  never settles.
\<close>

record env =
  reply :: "string list \<Rightarrow> string \<Rightarrow> response promise"
  listing :: "string list \<Rightarrow> string \<Rightarrow> string promise"

definition connection_sendCommand :: "env \<Rightarrow> string \<Rightarrow> string list \<Rightarrow> response promise \<times> string list" where
  "connection_sendCommand env command h = (reply env h command, h @ [command])"

definition list_dir :: "env \<Rightarrow> string \<Rightarrow> string list \<Rightarrow> string promise \<times> string list" where
  "list_dir env path h = (listing env h path, h @ [''LIST '' @ path])"

text \<open>
  \<^verbatim>\<open>
  async cd(path) { await this.connection.sendCommand(`CWD ${path}`); }
  async pwd() {
    const response = await this.connection.sendCommand('PWD');
    const match = response.message.match(/"(.+)"/);
    return match ? match[1] : '/';
  }
  async mkdir(path) { await this.connection.sendCommand(`MKD ${path}`); }
  async size(path) {
    const response = await this.connection.sendCommand(`SIZE ${path}`);
    return parseInt(response.message);
  }
  \<close>
\<close>

definition cd :: "env \<Rightarrow> string \<Rightarrow> string list \<Rightarrow> unit promise \<times> string list" where
  "cd env path h =
     (case connection_sendCommand env (''CWD '' @ path) h of
        (Fulfilled r, h') \<Rightarrow> (Fulfilled (), h')
      | (Failed e, h') \<Rightarrow> (Failed e, h')
      | (Pending, h') \<Rightarrow> (Pending, h'))"

definition pwd :: "env \<Rightarrow> string list \<Rightarrow> string promise \<times> string list" where
  "pwd env h =
     (case connection_sendCommand env ''PWD'' h of
        (Fulfilled r, h') \<Rightarrow>
          (Fulfilled (case match_quoted (message r) of Some m \<Rightarrow> m | None \<Rightarrow> ''/''), h')
      | (Failed e, h') \<Rightarrow> (Failed e, h')
      | (Pending, h') \<Rightarrow> (Pending, h'))"

definition mkdir :: "env \<Rightarrow> string \<Rightarrow> string list \<Rightarrow> unit promise \<times> string list" where
  "mkdir env path h =
     (case connection_sendCommand env (''MKD '' @ path) h of
        (Fulfilled r, h') \<Rightarrow> (Fulfilled (), h')
      | (Failed e, h') \<Rightarrow> (Failed e, h')
      | (Pending, h') \<Rightarrow> (Pending, h'))"

definition size_of :: "env \<Rightarrow> string \<Rightarrow> string list \<Rightarrow> int option promise \<times> string list" where
  "size_of env path h =
     (case connection_sendCommand env (''SIZE '' @ path) h of
        (Fulfilled r, h') \<Rightarrow> (Fulfilled (parseInt (message r)), h')
      | (Failed e, h') \<Rightarrow> (Failed e, h')
      | (Pending, h') \<Rightarrow> (Pending, h'))"

text \<open>
  The object \<^verbatim>\<open>{ exists, size, isFile, isDirectory }\<close>; \<^term>\<open>None\<close> is \<^verbatim>\<open>null\<close>.
\<close>

record stat_info =
  st_exists :: bool
  st_size :: "int option option"
  st_isFile :: "bool option"
  st_isDirectory :: "bool option"

text \<open>
  \<^verbatim>\<open>
  async stat(path) {
    try {
      const size = await this.size(path);
      return { exists: true, size, isFile: true, isDirectory: false };
    } catch (err) {
      try {
        const currentDir = await this.pwd();
        await this.cd(path);
        await this.cd(currentDir);
        return { exists: true, size: null, isFile: false, isDirectory: true };
      } catch (cdErr) {
        try {
          const dir = getParentDir(path);
          const basename = path.split('/').pop();
          const listing = await this.list(dir);
          const found = listing.split('\n').some(line => line.includes(basename));
          return { exists: found, size: null, isFile: null, isDirectory: null };
        } catch (listErr) {
          return { exists: false, size: null, isFile: null, isDirectory: null };
        }
      }
    }
  }
  \<close>
  \<open>directory_probe\<close> is the body of the second \<^verbatim>\<open>try\<close>, \<open>listing_probe\<close> the third
  \<^verbatim>\<open>try\<close> with its \<^verbatim>\<open>catch\<close>.
\<close>

definition directory_probe :: "env \<Rightarrow> string \<Rightarrow> string list \<Rightarrow> stat_info promise \<times> string list" where
  "directory_probe env path h =
     (case pwd env h of
        (Failed e, h1) \<Rightarrow> (Failed e, h1)
      | (Pending, h1) \<Rightarrow> (Pending, h1)
      | (Fulfilled currentDir, h1) \<Rightarrow>
          (case cd env path h1 of
             (Failed e, h2) \<Rightarrow> (Failed e, h2)
           | (Pending, h2) \<Rightarrow> (Pending, h2)
           | (Fulfilled u, h2) \<Rightarrow>
               (case cd env currentDir h2 of
                  (Failed e, h3) \<Rightarrow> (Failed e, h3)
                | (Pending, h3) \<Rightarrow> (Pending, h3)
                | (Fulfilled u, h3) \<Rightarrow>
                    (Fulfilled \<lparr>st_exists = True, st_size = None, st_isFile = Some False,
                                st_isDirectory = Some True\<rparr>, h3))))"

definition listing_probe :: "env \<Rightarrow> string \<Rightarrow> string list \<Rightarrow> stat_info promise \<times> string list" where
  "listing_probe env path h =
     (let dir = getParentDir path;
          basename = last (split_on CHR ''/'' path)
      in case list_dir env dir h of
           (Fulfilled text, h1) \<Rightarrow>
             (Fulfilled \<lparr>st_exists = list_ex (includes_str basename) (split_on LF text),
                         st_size = None, st_isFile = None, st_isDirectory = None\<rparr>, h1)
         | (Failed listErr, h1) \<Rightarrow>
             (Fulfilled \<lparr>st_exists = False, st_size = None, st_isFile = None,
                         st_isDirectory = None\<rparr>, h1)
         | (Pending, h1) \<Rightarrow> (Pending, h1))"

definition stat :: "env \<Rightarrow> string \<Rightarrow> string list \<Rightarrow> stat_info promise \<times> string list" where
  "stat env path h =
     (case size_of env path h of
        (Fulfilled sz, h1) \<Rightarrow>
          (Fulfilled \<lparr>st_exists = True, st_size = Some sz, st_isFile = Some True,
                      st_isDirectory = Some False\<rparr>, h1)
      | (Pending, h1) \<Rightarrow> (Pending, h1)
      | (Failed err, h1) \<Rightarrow>
          (case directory_probe env path h1 of
             (Fulfilled info, h2) \<Rightarrow> (Fulfilled info, h2)
           | (Pending, h2) \<Rightarrow> (Pending, h2)
           | (Failed cdErr, h2) \<Rightarrow> listing_probe env path h2))"

text \<open>
  \<^verbatim>\<open>async exists(path) { const info = await this.stat(path); return info.exists; }\<close>
\<close>

definition exists_path :: "env \<Rightarrow> string \<Rightarrow> string list \<Rightarrow> bool promise \<times> string list" where
  "exists_path env path h =
     (case stat env path h of
        (Fulfilled info, h') \<Rightarrow> (Fulfilled (st_exists info), h')
      | (Failed e, h') \<Rightarrow> (Failed e, h')
      | (Pending, h') \<Rightarrow> (Pending, h'))"

text \<open>
  \<^verbatim>\<open>
  async ensureDir(path, recursive = true) {
    const isFilePath = /\.[^./\\]+$/.test(path);
    const targetPath = isFilePath ? getParentDir(path) : path;
    if (!targetPath || targetPath === '.' || targetPath === '/') { return; }
    const normalized = normalizePath(targetPath);
    if (normalized === '/' || normalized === '.') { return; }
    try { await this.cd(normalized); return; } catch (err) { }
    if (recursive) {
      const parentDir = normalized.substring(0, normalized.lastIndexOf('/')) || '/';
      if (parentDir !== '/' && parentDir !== '.') { await this.ensureDir(parentDir, true); }
    }
    try { await this.mkdir(normalized); }
    catch (err) {
      if (!err.message.includes('550') && !err.message.includes('exists')) { throw err; }
    }
  }
  \<close>
  \<open>target_of\<close> is \<^verbatim>\<open>targetPath\<close> and \<open>parent_of\<close> is \<^verbatim>\<open>parentDir\<close>. The recursion is on a
  shorter path each time, which is why the function always returns.
\<close>

definition parent_of :: "string \<Rightarrow> string" where
  "parent_of normalized =
     (let p = substring0 normalized (lastIndexOf CHR ''/'' normalized)
      in if p = [] then ''/'' else p)"

definition target_of :: "string \<Rightarrow> string" where
  "target_of path = (if has_extension path then getParentDir path else path)"

lemma length_collapse_slashes: "length (collapse_slashes s) \<le> length s"
  by (induction s rule: collapse_slashes.induct) auto

lemma length_normalizePath: "length (normalizePath p) \<le> length p"
  using length_collapse_slashes [of "map (\<lambda>c. if c = backslash then CHR ''/'' else c) p"]
  by (simp add: normalizePath_def)

lemma lastIndexOf_less: "lastIndexOf c s < int (length s)"
  by (simp add: lastIndexOf_def)

lemma length_getParentDir: "getParentDir p \<noteq> ''/'' \<Longrightarrow> length (getParentDir p) < length p"
proof -
  assume a: "getParentDir p \<noteq> ''/''"
  let ?n = "normalizePath p"
  from a have gp: "getParentDir p = substring0 ?n (lastIndexOf CHR ''/'' ?n)"
    and pos: "0 < lastIndexOf CHR ''/'' ?n"
    by (auto simp: getParentDir_def Let_def split: if_splits)
  have "nat (lastIndexOf CHR ''/'' ?n) < length ?n"
    using lastIndexOf_less [of "CHR ''/''" ?n] pos by simp
  then have "length (getParentDir p) < length ?n"
    by (simp add: gp substring0_def)
  with length_normalizePath [of p] show ?thesis by simp
qed

lemma length_parent_of: "parent_of n \<noteq> ''/'' \<Longrightarrow> length (parent_of n) < length n"
proof -
  assume a: "parent_of n \<noteq> ''/''"
  then have p: "parent_of n = substring0 n (lastIndexOf CHR ''/'' n)" and ne: "substring0 n (lastIndexOf CHR ''/'' n) \<noteq> []"
    by (auto simp: parent_of_def Let_def split: if_splits)
  from ne have "n \<noteq> []" by (auto simp: substring0_def)
  then have "nat (lastIndexOf CHR ''/'' n) < length n"
    using lastIndexOf_less [of "CHR ''/''" n] by (cases n) auto
  then show ?thesis by (simp add: p substring0_def)
qed

lemma length_target_of: "target_of p \<noteq> ''/'' \<Longrightarrow> length (target_of p) \<le> length p"
  using length_getParentDir [of p] by (auto simp: target_of_def)

function ensureDir :: "env \<Rightarrow> string \<Rightarrow> bool \<Rightarrow> string list \<Rightarrow> unit promise \<times> string list" where
  "ensureDir env path recursive h =
     (let targetPath = target_of path
      in if targetPath = [] \<or> targetPath = ''.'' \<or> targetPath = ''/'' then (Fulfilled (), h)
         else
           let normalized = normalizePath targetPath
           in if normalized = ''/'' \<or> normalized = ''.'' then (Fulfilled (), h)
              else
                case cd env normalized h of
                  (Fulfilled u, h1) \<Rightarrow> (Fulfilled (), h1)
                | (Pending, h1) \<Rightarrow> (Pending, h1)
                | (Failed err, h1) \<Rightarrow>
                    (let parentDir = parent_of normalized
                     in case (if recursive \<and> parentDir \<noteq> ''/'' \<and> parentDir \<noteq> ''.''
                              then ensureDir env parentDir True h1
                              else (Fulfilled (), h1)) of
                          (Failed e, h2) \<Rightarrow> (Failed e, h2)
                        | (Pending, h2) \<Rightarrow> (Pending, h2)
                        | (Fulfilled u, h2) \<Rightarrow>
                            (case mkdir env normalized h2 of
                               (Fulfilled u, h3) \<Rightarrow> (Fulfilled (), h3)
                             | (Pending, h3) \<Rightarrow> (Pending, h3)
                             | (Failed (Error msg), h3) \<Rightarrow>
                                 if \<not> includes_str ''550'' msg \<and> \<not> includes_str ''exists'' msg
                                 then (Failed (Error msg), h3)
                                 else (Fulfilled (), h3))))"
  by pat_completeness auto
termination
proof (relation "measure (\<lambda>(env, path, recursive, h). length path)")
  show "wf (measure (\<lambda>(env, path, recursive, h). length path))" by simp
next
  fix env :: env and path recursive h targetPath normalized x a b parentDir
  assume t: "targetPath = target_of path" "\<not> (targetPath = [] \<or> targetPath = ''.'' \<or> targetPath = ''/'')"
    and n: "normalized = normalizePath targetPath"
    and p: "parentDir = parent_of normalized" "recursive \<and> parentDir \<noteq> ''/'' \<and> parentDir \<noteq> ''.''"
  have "length parentDir < length normalized" using p length_parent_of by simp
  also have "\<dots> \<le> length targetPath" using n length_normalizePath by simp
  also have "\<dots> \<le> length path" using t length_target_of by simp
  finally show "((env, parentDir, True, b), env, path, recursive, h) \<in> measure (\<lambda>(env, path, recursive, h). length path)"
    by simp
qed

declare ensureDir.simps [simp del]

text \<open>
  The earlier \<^verbatim>\<open>ensureDir(dirPath, recursive = true, isFilePath = false)\<close> of the same
  file, which is told whether the path names a file and recurs with the default
  \<^verbatim>\<open>isFilePath = false\<close>; the rest is the same.
\<close>

function ensureDir_isFilePath ::
  "env \<Rightarrow> string \<Rightarrow> bool \<Rightarrow> bool \<Rightarrow> string list \<Rightarrow> unit promise \<times> string list" where
  "ensureDir_isFilePath env dirPath recursive isFilePath h =
     (let targetPath = (if isFilePath then getParentDir dirPath else dirPath)
      in if targetPath = [] \<or> targetPath = ''.'' \<or> targetPath = ''/'' then (Fulfilled (), h)
         else
           let normalized = normalizePath targetPath
           in if normalized = ''/'' \<or> normalized = ''.'' then (Fulfilled (), h)
              else
                case cd env normalized h of
                  (Fulfilled u, h1) \<Rightarrow> (Fulfilled (), h1)
                | (Pending, h1) \<Rightarrow> (Pending, h1)
                | (Failed err, h1) \<Rightarrow>
                    (let parentDir = parent_of normalized
                     in case (if recursive \<and> parentDir \<noteq> ''/'' \<and> parentDir \<noteq> ''.''
                              then ensureDir_isFilePath env parentDir True False h1
                              else (Fulfilled (), h1)) of
                          (Failed e, h2) \<Rightarrow> (Failed e, h2)
                        | (Pending, h2) \<Rightarrow> (Pending, h2)
                        | (Fulfilled u, h2) \<Rightarrow>
                            (case mkdir env normalized h2 of
                               (Fulfilled u, h3) \<Rightarrow> (Fulfilled (), h3)
                             | (Pending, h3) \<Rightarrow> (Pending, h3)
                             | (Failed (Error msg), h3) \<Rightarrow>
                                 if \<not> includes_str ''550'' msg \<and> \<not> includes_str ''exists'' msg
                                 then (Failed (Error msg), h3)
                                 else (Fulfilled (), h3))))"
  by pat_completeness auto
termination
proof (relation "measure (\<lambda>(env, dirPath, recursive, isFilePath, h). length dirPath)")
  show "wf (measure (\<lambda>(env, dirPath, recursive, isFilePath, h). length dirPath))" by simp
next
  fix env :: env and dirPath recursive isFilePath h targetPath normalized x a b parentDir
  assume t: "targetPath = (if isFilePath then getParentDir dirPath else dirPath)"
      "\<not> (targetPath = [] \<or> targetPath = ''.'' \<or> targetPath = ''/'')"
    and n: "normalized = normalizePath targetPath"
    and p: "parentDir = parent_of normalized" "recursive \<and> parentDir \<noteq> ''/'' \<and> parentDir \<noteq> ''.''"
  have "length parentDir < length normalized" using p length_parent_of by simp
  also have "\<dots> \<le> length targetPath" using n length_normalizePath by simp
  also have "\<dots> \<le> length dirPath" using t length_getParentDir [of dirPath] by (auto split: if_splits)
  finally show "((env, parentDir, True, False, b), env, dirPath, recursive, isFilePath, h)
      \<in> measure (\<lambda>(env, dirPath, recursive, isFilePath, h). length dirPath)"
    by simp
qed

declare ensureDir_isFilePath.simps [simp del]


section \<open>Transfers: \<^verbatim>\<open>upload\<close>, \<^verbatim>\<open>download\<close> and \<^verbatim>\<open>list\<close>\<close>

text \<open>
  \<^verbatim>\<open>upload\<close>, \<^verbatim>\<open>download\<close> and \<^verbatim>\<open>list\<close> return \<^verbatim>\<open>new Promise((resolve, reject) => ...)\<close>
  and do the rest in the handlers of the data socket, of the \<^verbatim>\<open>'response'\<close> event and of
  timers. A transfer is modelled from the point where the data socket is created: its
  state is what the handlers share, an event is one run of a handler.
\<close>

datatype transfer_value = Nothing | Data string

text \<open>
  \<open>t_chunks\<close> and \<open>t_commandSent\<close> are the variables \<^verbatim>\<open>chunks\<close> and \<^verbatim>\<open>commandSent\<close>;
  \<open>t_command\<close> is the command sent with \<^verbatim>\<open>sendCommand(..., true)\<close> while its promise is
  unsettled, in the state \<^verbatim>\<open>sendCommand\<close> keeps for it; \<open>t_finalHandler\<close> tells whether
  \<^verbatim>\<open>finalHandler\<close> is registered; \<open>t_closed\<close> whether the timer set in the \<^verbatim>\<open>'close'\<close>
  handler is running; \<open>t_captured\<close> is the \<^verbatim>\<open>result\<close> that the later \<^verbatim>\<open>download\<close> computes
  when the socket closes; \<open>t_result\<close> is the promise returned.
\<close>

record 'c transfer =
  t_chunks :: "string list"
  t_commandSent :: bool
  t_command :: "'c option"
  t_finalHandler :: bool
  t_closed :: bool
  t_captured :: string
  t_result :: "transfer_value promise"
  t_dataWritten :: "string list"
  t_controlWritten :: "string list"

definition new_transfer :: "'c transfer" where
  "new_transfer = \<lparr>t_chunks = [], t_commandSent = False, t_command = None,
     t_finalHandler = False, t_closed = False, t_captured = [], t_result = Pending,
     t_dataWritten = [], t_controlWritten = []\<rparr>"

text \<open>Only the first call of \<^verbatim>\<open>resolve\<close> or \<^verbatim>\<open>reject\<close> settles a promise.\<close>

definition resolve :: "transfer_value \<Rightarrow> 'c transfer \<Rightarrow> 'c transfer" where
  "resolve v t = (if t_result t = Pending then t\<lparr>t_result := Fulfilled v\<rparr> else t)"

definition reject :: "error \<Rightarrow> 'c transfer \<Rightarrow> 'c transfer" where
  "reject e t = (if t_result t = Pending then t\<lparr>t_result := Failed e\<rparr> else t)"

text \<open>
  The data socket connects, receives a chunk, fails, or closes; the control channel emits
  a complete reply line; the deadline of the command elapses; the timer set in the
  \<^verbatim>\<open>'close'\<close> handler fires.
\<close>

datatype transfer_event =
  DataConnected | DataChunk string | DataError error | DataClosed
  | ControlLine string | CommandDeadline | CloseTimer

definition code_at_least :: "int \<Rightarrow> int option \<Rightarrow> bool" where
  "code_at_least lo c = (case c of None \<Rightarrow> False | Some n \<Rightarrow> lo \<le> n)"

text \<open>
  \<^verbatim>\<open>this.connection.sendCommand(cmd, true).catch(reject)\<close>. The function \<^verbatim>\<open>sendCommand\<close>
  lives in \<^verbatim>\<open>lib/connection.js\<close> and is a parameter of the transfers: what a call
  gives (a promise that waits, in some state of the command, or one that is settled
  at once), what the command does with a reply line that the client emits, and what it
  does when its deadline elapses.
\<close>

datatype 'c reaction = Waits 'c | Settles outcome

record 'c connection =
  conn_sendCommand :: "string \<Rightarrow> bool \<Rightarrow> 'c reaction"
  conn_response :: "string \<Rightarrow> 'c \<Rightarrow> 'c reaction"
  conn_deadline :: "'c \<Rightarrow> 'c reaction"

text \<open>
  A rejection of the command's promise rejects the transfer. It reaches the transfer
  through \<^verbatim>\<open>.catch\<close>, that is after the handlers that \<^verbatim>\<open>emit\<close> calls for the same line
  have run.
\<close>

definition catch_reject :: "'c reaction \<Rightarrow> 'c transfer \<Rightarrow> 'c transfer" where
  "catch_reject r t =
     (case r of
        Waits c \<Rightarrow> t\<lparr>t_command := Some c\<rparr>
      | Settles (Resolved x) \<Rightarrow> t\<lparr>t_command := None\<rparr>
      | Settles (Rejected e) \<Rightarrow> reject e (t\<lparr>t_command := None\<rparr>))"

definition send_tolerant :: "'c connection \<Rightarrow> string \<Rightarrow> 'c transfer \<Rightarrow> 'c transfer" where
  "send_tolerant conn cmd t = catch_reject (conn_sendCommand conn cmd True) t"

definition command_response :: "'c connection \<Rightarrow> string \<Rightarrow> 'c transfer \<Rightarrow> 'c transfer" where
  "command_response conn line t =
     (case t_command t of
        None \<Rightarrow> t
      | Some c \<Rightarrow> catch_reject (conn_response conn line c) t)"

definition command_deadline :: "'c connection \<Rightarrow> 'c transfer \<Rightarrow> 'c transfer" where
  "command_deadline conn t =
     (case t_command t of
        None \<Rightarrow> t
      | Some c \<Rightarrow> catch_reject (conn_deadline conn c) t)"

text \<open>
  One such \<^verbatim>\<open>sendCommand\<close> is \<^verbatim>\<open>_sendCommand\<close> of the one-file client, on a connected
  client: the state of a command is its \<^verbatim>\<open>responseHandler\<close> with its timer.
\<close>

definition one_file_sendCommand :: "pending connection" where
  "one_file_sendCommand =
     \<lparr>conn_sendCommand = (\<lambda>cmd allowPreliminary.
        Waits \<lparr>p_id = 0, p_command = cmd, p_allowPreliminary = allowPreliminary, p_timer = True\<rparr>),
      conn_response = (\<lambda>line p.
        case responseHandler p line of Keep p' \<Rightarrow> Waits p' | Settle out \<Rightarrow> Settles out),
      conn_deadline = (\<lambda>p.
        if p_timer p
        then Settles (Rejected (Error (''Command timeout: '' @ maskPassword (p_command p))))
        else Waits p)\<rparr>"

subsection \<open>The transfers that wait for the final reply (first \<^verbatim>\<open>lib/commands.js\<close>)\<close>

text \<open>
  \<^verbatim>\<open>
  this.client.dataSocket = createOptimizedSocket({ host, port }, () => {
    if (!commandSent) {
      commandSent = true;
      this.connection.sendCommand(`STOR ${remotePath}`, true).catch(reject);
      this.client.dataSocket.write(buffer);
      this.client.dataSocket.end();
    }
  });
  this.client.dataSocket.on('error', reject);
  this.client.dataSocket.on('close', () => {
    const finalHandler = (line) => {
      const code = parseInt(line.substring(0, 3));
      if (code === 226 || code === 250) {
        this.client.removeListener('response', finalHandler);
        resolve();
      } else if (code >= 400) {
        this.client.removeListener('response', finalHandler);
        reject(new Error(`Upload failed - FTP Error ${code}: ${line.substring(4)} (path: ${remotePath})`));
      }
    };
    this.client.on('response', finalHandler);
    setTimeout(() => {
      this.client.removeListener('response', finalHandler);
      resolve();
    }, this.client.timeout || 5000);
  });
  \<close>
\<close>

definition upload_finalHandler :: "string \<Rightarrow> string \<Rightarrow> 'c transfer \<Rightarrow> 'c transfer" where
  "upload_finalHandler remotePath line t =
     (let code = parseInt (take 3 line)
      in if \<not> t_finalHandler t then t
         else if code = Some 226 \<or> code = Some 250
           then resolve Nothing (t\<lparr>t_finalHandler := False\<rparr>)
         else if code_at_least 400 code
           then reject (Error (''Upload failed - FTP Error '' @ string_of_number code @ '': '' @
                          drop 4 line @ '' (path: '' @ remotePath @ '')''))
                  (t\<lparr>t_finalHandler := False\<rparr>)
         else t)"

fun upload_v21 ::
  "'c connection \<Rightarrow> string \<Rightarrow> string \<Rightarrow> transfer_event \<Rightarrow> 'c transfer \<Rightarrow> 'c transfer" where
  "upload_v21 conn buffer remotePath DataConnected t =
     (if \<not> t_commandSent t
      then (send_tolerant conn (''STOR '' @ remotePath) (t\<lparr>t_commandSent := True\<rparr>))
             \<lparr>t_dataWritten := t_dataWritten t @ [buffer]\<rparr>
      else t)"
| "upload_v21 conn buffer remotePath (DataChunk c) t = t"
| "upload_v21 conn buffer remotePath (DataError e) t = reject e t"
| "upload_v21 conn buffer remotePath DataClosed t = t\<lparr>t_finalHandler := True, t_closed := True\<rparr>"
| "upload_v21 conn buffer remotePath (ControlLine line) t =
     command_response conn line (upload_finalHandler remotePath line t)"
| "upload_v21 conn buffer remotePath CommandDeadline t = command_deadline conn t"
| "upload_v21 conn buffer remotePath CloseTimer t =
     (if t_closed t then resolve Nothing (t\<lparr>t_finalHandler := False\<rparr>) else t)"

text \<open>
  \<^verbatim>\<open>download\<close> sends \<^verbatim>\<open>RETR\<close>, collects the chunks, and differs from \<^verbatim>\<open>upload\<close> in what
  it resolves with and in the timer:
  \<^verbatim>\<open>
  setTimeout(() => {
    this.client.removeListener('response', finalHandler);
    if (chunks.length > 0) { resolve(Buffer.concat(chunks)); }
  }, this.client.timeout || 5000);
  \<close>
\<close>

definition download_finalHandler :: "string \<Rightarrow> string \<Rightarrow> 'c transfer \<Rightarrow> 'c transfer" where
  "download_finalHandler remotePath line t =
     (let code = parseInt (take 3 line)
      in if \<not> t_finalHandler t then t
         else if code = Some 226 \<or> code = Some 250
           then resolve (Data (concat (t_chunks t))) (t\<lparr>t_finalHandler := False\<rparr>)
         else if code_at_least 400 code
           then reject (Error (''Download failed - FTP Error '' @ string_of_number code @ '': '' @
                          drop 4 line @ '' (path: '' @ remotePath @ '')''))
                  (t\<lparr>t_finalHandler := False\<rparr>)
         else t)"

fun download_v21 :: "'c connection \<Rightarrow> string \<Rightarrow> transfer_event \<Rightarrow> 'c transfer \<Rightarrow> 'c transfer" where
  "download_v21 conn remotePath DataConnected t =
     (if \<not> t_commandSent t
      then send_tolerant conn (''RETR '' @ remotePath) (t\<lparr>t_commandSent := True\<rparr>)
      else t)"
| "download_v21 conn remotePath (DataChunk c) t = t\<lparr>t_chunks := t_chunks t @ [c]\<rparr>"
| "download_v21 conn remotePath (DataError e) t = reject e t"
| "download_v21 conn remotePath DataClosed t = t\<lparr>t_finalHandler := True, t_closed := True\<rparr>"
| "download_v21 conn remotePath (ControlLine line) t =
     command_response conn line (download_finalHandler remotePath line t)"
| "download_v21 conn remotePath CommandDeadline t = command_deadline conn t"
| "download_v21 conn remotePath CloseTimer t =
     (if t_closed t
      then (let t' = t\<lparr>t_finalHandler := False\<rparr>
            in if t_chunks t \<noteq> [] then resolve (Data (concat (t_chunks t))) t' else t')
      else t)"

text \<open>
  The \<^verbatim>\<open>finalHandler\<close> of \<^verbatim>\<open>list\<close> has no branch for the failure codes:
  \<^verbatim>\<open>
  const finalHandler = (line) => {
    const code = parseInt(line.substring(0, 3));
    if (code === 226 || code === 250) {
      this.client.removeListener('response', finalHandler);
      resolve(Buffer.concat(chunks).toString('utf8'));
    }
  };
  \<close>
\<close>

definition list_finalHandler :: "string \<Rightarrow> 'c transfer \<Rightarrow> 'c transfer" where
  "list_finalHandler line t =
     (let code = parseInt (take 3 line)
      in if \<not> t_finalHandler t then t
         else if code = Some 226 \<or> code = Some 250
           then resolve (Data (concat (t_chunks t))) (t\<lparr>t_finalHandler := False\<rparr>)
         else t)"

fun list_v21 :: "'c connection \<Rightarrow> string \<Rightarrow> transfer_event \<Rightarrow> 'c transfer \<Rightarrow> 'c transfer" where
  "list_v21 conn path DataConnected t =
     (if \<not> t_commandSent t
      then send_tolerant conn (''LIST '' @ path) (t\<lparr>t_commandSent := True\<rparr>)
      else t)"
| "list_v21 conn path (DataChunk c) t = t\<lparr>t_chunks := t_chunks t @ [c]\<rparr>"
| "list_v21 conn path (DataError e) t = reject e t"
| "list_v21 conn path DataClosed t = t\<lparr>t_finalHandler := True, t_closed := True\<rparr>"
| "list_v21 conn path (ControlLine line) t = command_response conn line (list_finalHandler line t)"
| "list_v21 conn path CommandDeadline t = command_deadline conn t"
| "list_v21 conn path CloseTimer t =
     (if t_closed t then resolve (Data (concat (t_chunks t))) (t\<lparr>t_finalHandler := False\<rparr>) else t)"

subsection \<open>The transfers that resolve when the data socket closes (second \<^verbatim>\<open>lib/commands.js\<close>)\<close>

text \<open>
  \<^verbatim>\<open>
  this.client.dataSocket = createOptimizedSocket({ host, port }, () => {
    if (!commandSent) {
      commandSent = true;
      // Just send command, don't wait for completion - data socket will handle it
      this.client.socket.write(`RETR ${remotePath}\r\n`);
      this.client._commandCount++;
    }
  });
  this.client.dataSocket.on('data', (chunk) => { chunks.push(chunk); });
  this.client.dataSocket.on('error', reject);
  this.client.dataSocket.on('close', () => {
    // Data transfer complete, resolve immediately
    const result = Buffer.concat(chunks);
    // Small delay to let 226 response arrive before next command
    setTimeout(() => resolve(result), 10);
  });
  \<close>
  No handler of these transfers listens to the control channel.
\<close>

fun upload_v22 :: "string \<Rightarrow> string \<Rightarrow> transfer_event \<Rightarrow> 'c transfer \<Rightarrow> 'c transfer" where
  "upload_v22 buffer remotePath DataConnected t =
     (if \<not> t_commandSent t
      then t\<lparr>t_commandSent := True,
             t_controlWritten := t_controlWritten t @ [''STOR '' @ remotePath @ [CR, LF]],
             t_dataWritten := t_dataWritten t @ [buffer]\<rparr>
      else t)"
| "upload_v22 buffer remotePath (DataError e) t = reject e t"
| "upload_v22 buffer remotePath DataClosed t = t\<lparr>t_closed := True\<rparr>"
| "upload_v22 buffer remotePath CloseTimer t = (if t_closed t then resolve Nothing t else t)"
| "upload_v22 buffer remotePath ev t = t"

fun download_v22 :: "string \<Rightarrow> transfer_event \<Rightarrow> 'c transfer \<Rightarrow> 'c transfer" where
  "download_v22 remotePath DataConnected t =
     (if \<not> t_commandSent t
      then t\<lparr>t_commandSent := True,
             t_controlWritten := t_controlWritten t @ [''RETR '' @ remotePath @ [CR, LF]]\<rparr>
      else t)"
| "download_v22 remotePath (DataChunk c) t = t\<lparr>t_chunks := t_chunks t @ [c]\<rparr>"
| "download_v22 remotePath (DataError e) t = reject e t"
| "download_v22 remotePath DataClosed t = t\<lparr>t_closed := True, t_captured := concat (t_chunks t)\<rparr>"
| "download_v22 remotePath CloseTimer t = (if t_closed t then resolve (Data (t_captured t)) t else t)"
| "download_v22 remotePath ev t = t"

fun list_v22 :: "string \<Rightarrow> transfer_event \<Rightarrow> 'c transfer \<Rightarrow> 'c transfer" where
  "list_v22 path DataConnected t =
     (if \<not> t_commandSent t
      then t\<lparr>t_commandSent := True,
             t_controlWritten := t_controlWritten t @ [''LIST '' @ path @ [CR, LF]]\<rparr>
      else t)"
| "list_v22 path (DataChunk c) t = t\<lparr>t_chunks := t_chunks t @ [c]\<rparr>"
| "list_v22 path (DataError e) t = reject e t"
| "list_v22 path DataClosed t = t\<lparr>t_closed := True\<rparr>"
| "list_v22 path CloseTimer t = (if t_closed t then resolve (Data (concat (t_chunks t))) t else t)"
| "list_v22 path ev t = t"

fun run_transfer ::
  "(transfer_event \<Rightarrow> 'c transfer \<Rightarrow> 'c transfer) \<Rightarrow> transfer_event list \<Rightarrow> 'c transfer \<Rightarrow> 'c transfer" where
  "run_transfer op [] t = t"
| "run_transfer op (e # es) t = run_transfer op es (op e t)"


section \<open>Auxiliary notions for the framing\<close>




section \<open>Auxiliary notions for the proofs about the control channel\<close>

text \<open>Does a line end a command that was sent with this \<^verbatim>\<open>allowPreliminary\<close>?\<close>

definition settles :: "bool \<Rightarrow> string \<Rightarrow> bool" where
  "settles allow line =
     (charAt 3 line = '' '' \<and> \<not> (code_between 100 200 (parseInt (take 3 line)) \<and> allow))"

text \<open>
  The part of a client that concerns one promise: its listener and its settlements. The
  steps of the client commute with this projection, which is how a command is followed
  among the other listeners.
\<close>

definition core :: "nat \<Rightarrow> client \<Rightarrow> client" where
  "core pid c =
     \<lparr>connected = True, commandCount = 0, lastCommand = None,
      listeners = filter (\<lambda>p. p_id p = pid) (listeners c),
      settlements = filter (\<lambda>s. fst s = pid) (settlements c),
      next_promise = 0, written = []\<rparr>"

definition waiting :: "pending \<Rightarrow> client" where
  "waiting p = \<lparr>connected = True, commandCount = 0, lastCommand = None, listeners = [p],
     settlements = [], next_promise = 0, written = []\<rparr>"

definition finished :: "nat \<Rightarrow> outcome \<Rightarrow> client" where
  "finished pid out = \<lparr>connected = True, commandCount = 0, lastCommand = None, listeners = [],
     settlements = [(pid, out)], next_promise = 0, written = []\<rparr>"

text \<open>Are the first three characters of the line three decimal digits?\<close>

definition three_digits :: "string \<Rightarrow> bool" where
  "three_digits line = (length (take 3 line) = 3 \<and> list_all (radix_digit 10) (take 3 line))"


section \<open>The passive-mode pattern as the specification words it\<close>

text \<open>
  Six groups \<open>(h1,h2,h3,h4,p1,p2)\<close> of one or more decimal digits each, the text they
  make up, and the number a group of digits denotes.
\<close>

definition digit_group :: "string \<Rightarrow> bool" where
  "digit_group g = (g \<noteq> [] \<and> list_all is_digit g)"

definition pasv_groups :: "groups \<Rightarrow> bool" where
  "pasv_groups g = (case g of (h1, h2, h3, h4, p1, p2) \<Rightarrow>
     digit_group h1 \<and> digit_group h2 \<and> digit_group h3 \<and> digit_group h4 \<and>
     digit_group p1 \<and> digit_group p2)"

definition pasv_text :: "groups \<Rightarrow> string" where
  "pasv_text g = (case g of (h1, h2, h3, h4, p1, p2) \<Rightarrow>
     ''('' @ h1 @ '','' @ h2 @ '','' @ h3 @ '','' @ h4 @ '','' @ p1 @ '','' @ p2 @ '')'')"

fun decimal_value :: "string \<Rightarrow> nat" where
  "decimal_value [] = 0"
| "decimal_value (c # cs) = (of_char c - 48) * 10 ^ length cs + decimal_value cs"


section \<open>Servers for the command layer\<close>

text \<open>
  A creation attempt that \<^verbatim>\<open>ensureDir\<close> gets over: the command succeeds, or fails with a
  message that contains \<^verbatim>\<open>550\<close> or \<^verbatim>\<open>exists\<close>.
\<close>

definition is_rejected :: "response promise \<Rightarrow> bool" where
  "is_rejected out = (case out of Failed e \<Rightarrow> True | Fulfilled r \<Rightarrow> False | Pending \<Rightarrow> False)"

definition mkd_tolerated :: "response promise \<Rightarrow> bool" where
  "mkd_tolerated out =
     (case out of
        Fulfilled r \<Rightarrow> True
      | Failed (Error msg) \<Rightarrow> includes_str ''550'' msg \<or> includes_str ''exists'' msg
      | Pending \<Rightarrow> False)"

definition directory_server :: env where
  "directory_server =
     \<lparr>reply = (\<lambda>h c.
        if startsWith ''MKD '' c
        then Fulfilled \<lparr>code = Some 257, message = ''Created'', raw = ''257 Created''\<rparr>
        else if startsWith ''CWD '' c \<and> (''MKD '' @ drop 4 c) \<in> set h
        then Fulfilled \<lparr>code = Some 250, message = ''OK'', raw = ''250 OK''\<rparr>
        else Failed (Error ''FTP Error 550: No such file or directory'')),
      listing = (\<lambda>h p. Failed (Error ''FTP Error 550: No such file or directory''))\<rparr>"

text \<open>
  \<open>directory_server\<close> holds the directories created on the session and no other;
  \<open>file_server\<close> holds a directory \<^verbatim>\<open>/pub\<close> with two files and answers \<^verbatim>\<open>SIZE\<close> for one
  of them only.
\<close>

definition file_server :: env where
  "file_server =
     \<lparr>reply = (\<lambda>h c.
        if c = ''SIZE /pub/readme.txt''
        then Fulfilled \<lparr>code = Some 213, message = ''1024'', raw = ''213 1024''\<rparr>
        else if c = ''PWD''
        then Fulfilled \<lparr>code = Some 257, message = [CHR 0x22] @ ''/'' @ [CHR 0x22] @ '' is current'',
                        raw = ''257 '' @ [CHR 0x22] @ ''/'' @ [CHR 0x22] @ '' is current''\<rparr>
        else if c = ''CWD /pub'' \<or> c = ''CWD /''
        then Fulfilled \<lparr>code = Some 250, message = ''OK'', raw = ''250 OK''\<rparr>
        else Failed (Error ''FTP Error 550: No such file or directory'')),
      listing = (\<lambda>h p.
        if p = ''/pub'' then Fulfilled (''readme.txt'' @ [CR, LF] @ ''notes.md'' @ [CR, LF])
        else Failed (Error ''FTP Error 550: No such file or directory''))\<rparr>"

text \<open>
  \<open>readonly_server\<close> has none of the directories and refuses every creation with a reply
  whose text holds neither \<^verbatim>\<open>550\<close> nor \<^verbatim>\<open>exists\<close>. On \<open>silent_server\<close> the reply to
  \<^verbatim>\<open>SIZE\<close> never completes: the promise of that command never settles.
\<close>

definition readonly_server :: env where
  "readonly_server =
     \<lparr>reply = (\<lambda>h c.
        if startsWith ''MKD '' c
        then Failed (Error ''FTP Error 553: Could not create directory'')
        else Failed (Error ''FTP Error 550: No such file or directory'')),
      listing = (\<lambda>h p. Failed (Error ''FTP Error 550: No such file or directory''))\<rparr>"

definition silent_server :: env where
  "silent_server =
     \<lparr>reply = (\<lambda>h c.
        if startsWith ''SIZE '' c then Pending
        else Failed (Error ''FTP Error 550: No such file or directory'')),
      listing = (\<lambda>h p. Failed (Error ''FTP Error 550: No such file or directory''))\<rparr>"

text \<open>
  The call issued last on the session never settles: the last entry of the history is a
  command whose promise stays pending, or the listing of a directory that stays pending.
\<close>

definition last_call_pending :: "env \<Rightarrow> string list \<Rightarrow> bool" where
  "last_call_pending env h =
     (h \<noteq> [] \<and>
      (reply env (butlast h) (last h) = Pending \<or>
       (startsWith ''LIST '' (last h) \<and> listing env (butlast h) (drop 5 (last h)) = Pending)))"


section \<open>Evaluating the string functions\<close>

lemmas js_simps = parseInt_def startsWith_def str_white_space_def radix_digit_def digit_value_def
  string_of_number_def digit_char_def charAt_def code_between_def maskPassword_def CR_def LF_def

subsection \<open>Splitting distributes over concatenation\<close>

lemma prepend_nonempty [simp]: "prepend c ps \<noteq> []"
  by (cases ps) auto

lemma split_crlf_nonempty [simp]: "split_crlf s \<noteq> []"
  by (induction s rule: split_crlf.induct) auto












subsection \<open>The handler on an authenticated client\<close>






subsection \<open>C4: the framer under chunk splits\<close>




section \<open>The control channel: following one command among the listeners\<close>

lemmas ctl_simps = responseHandler_def settle_reply_def sendCommand_def emit_response_def
  command_timeout_def promise_state_def connected_client_def new_client_def Let_def


lemma responseHandler_cases:
  "responseHandler p line =
     (if settles (p_allowPreliminary p) line then Settle (settle_reply line)
      else Keep (p\<lparr>p_timer := False\<rparr>))"
  by (auto simp: responseHandler_def settles_def Let_def)

lemma dispatch_filter:
  "filter (\<lambda>p. p_id p = pid) (fst (dispatch line ps)) = fst (dispatch line (filter (\<lambda>p. p_id p = pid) ps))"
  "filter (\<lambda>s. fst s = pid) (snd (dispatch line ps)) = snd (dispatch line (filter (\<lambda>p. p_id p = pid) ps))"
  by (induction ps) (auto simp: responseHandler_cases split: prod.splits)

lemma find_timer_filter:
  "find (\<lambda>p. p_id p = pid \<and> p_timer p) (filter (\<lambda>p. p_id p = pid) ps) =
   find (\<lambda>p. p_id p = pid \<and> p_timer p) ps"
  by (induction ps) auto

lemma find_other_filter:
  "pid' \<noteq> pid \<Longrightarrow> find (\<lambda>p. p_id p = pid' \<and> p_timer p) (filter (\<lambda>p. p_id p = pid) ps) = None"
  by (induction ps) auto

lemma filter_filter_other:
  "pid' \<noteq> pid \<Longrightarrow> filter (\<lambda>x. p_id x \<noteq> pid' \<and> p_id x = pid) ps = filter (\<lambda>p. p_id p = pid) ps"
  by (induction ps) auto

lemma core_emit: "core pid (emit_response line c) = emit_response line (core pid c)"
  using dispatch_filter [of pid line "listeners c"]
  by (simp add: core_def emit_response_def split_beta)

lemma core_timeout: "core pid (command_timeout pid' c) = command_timeout pid' (core pid c)"
proof (cases "pid' = pid")
  case True
  then show ?thesis
    by (simp add: core_def command_timeout_def find_timer_filter split: option.splits)
next
  case False
  then show ?thesis
    by (simp add: core_def command_timeout_def find_other_filter filter_filter_other split: option.splits)
qed

lemma core_step: "core pid (step e c) = step e (core pid c)"
  by (cases e) (simp_all add: core_emit core_timeout)

lemma core_run: "core pid (run es c) = run es (core pid c)"
  by (induction es arbitrary: c) (simp_all add: core_step)

lemma map_of_filter_fst: "map_of (filter (\<lambda>s. fst s = k) xs) k = map_of xs k"
  by (induction xs) auto

lemma promise_state_core: "promise_state (core pid c) pid = promise_state c pid"
  by (simp add: promise_state_def core_def map_of_filter_fst)

lemma settlements_core: "settlements (core pid c) = filter (\<lambda>s. fst s = pid) (settlements c)"
  by (simp add: core_def)

lemma core_sendCommand:
  assumes "wf_client c0" "connected c0" "sendCommand command allow c0 = (pid, c1)"
  shows "core pid c1 = waiting \<lparr>p_id = pid, p_command = command, p_allowPreliminary = allow, p_timer = True\<rparr>"
proof -
  from assms have pid: "pid = next_promise c0" by (auto simp: sendCommand_def Let_def)
  have "filter (\<lambda>p. p_id p = pid) (listeners c0) = []"
    using assms(1) pid by (auto simp: wf_client_def filter_empty_conv)
  moreover have "filter (\<lambda>s. fst s = pid) (settlements c0) = []"
    using assms(1) pid by (auto simp: wf_client_def filter_empty_conv)
  ultimately show ?thesis
    using assms(2,3) by (auto simp: sendCommand_def Let_def core_def waiting_def)
qed

lemma waiting_keep:
  "\<not> settles (p_allowPreliminary p) line \<Longrightarrow>
   emit_response line (waiting p) = waiting (p\<lparr>p_timer := False\<rparr>)"
  by (simp add: waiting_def emit_response_def responseHandler_cases)

lemma waiting_settle:
  "settles (p_allowPreliminary p) line \<Longrightarrow>
   emit_response line (waiting p) = finished (p_id p) (settle_reply line)"
  by (simp add: waiting_def finished_def emit_response_def responseHandler_cases)

lemma finished_step: "step e (finished pid out) = finished pid out"
  by (cases e) (simp_all add: finished_def emit_response_def command_timeout_def)

lemma finished_run: "run es (finished pid out) = finished pid out"
  by (induction es) (simp_all add: finished_step)

lemma waiting_run_keep:
  "\<forall>l \<in> set ls. \<not> settles (p_allowPreliminary p) l \<Longrightarrow>
   run (map Response ls) (waiting p) = waiting (if ls = [] then p else p\<lparr>p_timer := False\<rparr>)"
proof (induction ls arbitrary: p)
  case Nil
  then show ?case by simp
next
  case (Cons l ls)
  then have "run (map Response ls) (waiting (p\<lparr>p_timer := False\<rparr>)) =
      waiting (if ls = [] then p\<lparr>p_timer := False\<rparr> else p\<lparr>p_timer := False, p_timer := False\<rparr>)"
    by simp
  with Cons.prems show ?case by (simp add: waiting_keep)
qed

lemma run_append: "run (es @ fs) c = run fs (run es c)"
  by (induction es arbitrary: c) simp_all

lemma waiting_run_settle:
  assumes "\<forall>l \<in> set ls. \<not> settles (p_allowPreliminary p) l" "settles (p_allowPreliminary p) t"
  shows "run (map Response ls @ Response t # rest) (waiting p) = finished (p_id p) (settle_reply t)"
proof -
  have "run (map Response ls) (waiting p) = waiting (if ls = [] then p else p\<lparr>p_timer := False\<rparr>)"
    using assms(1) by (rule waiting_run_keep)
  moreover have "emit_response t (waiting (if ls = [] then p else p\<lparr>p_timer := False\<rparr>)) =
      finished (p_id p) (settle_reply t)"
    using assms(2) waiting_settle [of "if ls = [] then p else p\<lparr>p_timer := False\<rparr>" t] by simp
  ultimately show ?thesis
    by (simp add: run_append finished_run)
qed


lemma wf_new_client: "wf_client new_client"
  by (simp add: wf_client_def new_client_def)

lemma wf_connected_client: "wf_client connected_client"
  by (simp add: wf_client_def connected_client_def new_client_def)


lemma dispatch_kept_ids: "q \<in> set (fst (dispatch line ps)) \<Longrightarrow> p_id q \<in> p_id ` set ps"
  by (induction ps arbitrary: q) (auto simp: responseHandler_cases split: prod.splits if_splits)

lemma dispatch_outs_ids: "s \<in> set (snd (dispatch line ps)) \<Longrightarrow> fst s \<in> p_id ` set ps"
  by (induction ps arbitrary: s) (auto simp: responseHandler_cases split: prod.splits if_splits)

lemma wf_step: "wf_client c \<Longrightarrow> wf_client (step e c)"
proof (cases e)
  case (Response line)
  assume wf: "wf_client c"
  obtain kept outs where d: "dispatch line (listeners c) = (kept, outs)"
    by (cases "dispatch line (listeners c)")
  have k: "\<forall>q \<in> set kept. p_id q < next_promise c"
  proof
    fix q assume "q \<in> set kept"
    then have "p_id q \<in> p_id ` set (listeners c)"
      using dispatch_kept_ids [of q line "listeners c"] d by simp
    then obtain p where "p \<in> set (listeners c)" "p_id q = p_id p" by (rule imageE)
    with wf show "p_id q < next_promise c" by (simp add: wf_client_def)
  qed
  have o: "\<forall>s \<in> set outs. fst s < next_promise c"
  proof
    fix s assume "s \<in> set outs"
    then have "fst s \<in> p_id ` set (listeners c)"
      using dispatch_outs_ids [of s line "listeners c"] d by simp
    then obtain p where "p \<in> set (listeners c)" "fst s = p_id p" by (rule imageE)
    with wf show "fst s < next_promise c" by (simp add: wf_client_def)
  qed
  from wf k o d Response show ?thesis
    by (auto simp: wf_client_def emit_response_def)
next
  case (Timeout pid)
  assume "wf_client c"
  with Timeout show ?thesis
    by (auto simp: wf_client_def command_timeout_def split: option.splits dest: find_Some_iff [THEN iffD1])
qed

lemma wf_run: "wf_client c \<Longrightarrow> wf_client (run es c)"
  by (induction es arbitrary: c) (simp_all add: wf_step del: step.simps)

lemma promise_state_run_send:
  assumes "wf_client c0" "connected c0" "sendCommand command allow c0 = (pid, c1)"
  shows "promise_state (run es c1) pid =
    promise_state (run es (waiting \<lparr>p_id = pid, p_command = command, p_allowPreliminary = allow, p_timer = True\<rparr>)) pid"
    and "filter (\<lambda>s. fst s = pid) (settlements (run es c1)) =
      settlements (run es (waiting \<lparr>p_id = pid, p_command = command, p_allowPreliminary = allow, p_timer = True\<rparr>))"
    and "filter (\<lambda>p. p_id p = pid) (listeners (run es c1)) =
      listeners (run es (waiting \<lparr>p_id = pid, p_command = command, p_allowPreliminary = allow, p_timer = True\<rparr>))"
proof -
  let ?w = "waiting \<lparr>p_id = pid, p_command = command, p_allowPreliminary = allow, p_timer = True\<rparr>"
  have c: "core pid (run es c1) = run es ?w"
    using core_sendCommand [OF assms] by (simp add: core_run)
  show "promise_state (run es c1) pid = promise_state (run es ?w) pid"
    using promise_state_core [of pid "run es c1"] c by simp
  show "filter (\<lambda>s. fst s = pid) (settlements (run es c1)) = settlements (run es ?w)"
    using c by (simp add: core_def [of pid "run es c1"] flip: c)
  show "filter (\<lambda>p. p_id p = pid) (listeners (run es c1)) = listeners (run es ?w)"
    by (simp add: core_def [of pid "run es c1"] flip: c)
qed

subsection \<open>C5: preliminary replies\<close>

text \<open>
  C5. A command is sent on a connected client; \<open>ls\<close> are reply lines none of which ends
  it: each is a line whose fourth character is not a space, or, if the command tolerates
  preliminary replies, a terminal line with a code in 100..199. Then after \<open>ls\<close> the
  promise is still pending and its handler still registered. If the next line \<open>t\<close> is
  terminal and not such a tolerated preliminary reply, it settles the promise, whatever
  follows: a code in 200..399 resolves with the code and message of \<open>t\<close>, every other
  code (all codes from 400 on among them) rejects with \<^verbatim>\<open>FTP Error <code>: <message>\<close>.
  With \<^verbatim>\<open>allowPreliminary\<close> false that is the first terminal line.
\<close>

theorem C5_preliminary_replies:
  assumes "wf_client c0" and "connected c0" and "sendCommand command allow c0 = (pid, c1)"
    and "\<forall>l \<in> set ls. charAt 3 l \<noteq> '' '' \<or> (allow \<and> code_between 100 200 (parseInt (take 3 l)))"
    and "charAt 3 t = '' ''"
    and "\<not> (allow \<and> code_between 100 200 (parseInt (take 3 t)))"
  shows "promise_state (run (map Response ls) c1) pid = None \<and>
    filter (\<lambda>p. p_id p = pid) (listeners (run (map Response ls) c1)) \<noteq> [] \<and>
    (code_between 200 400 (parseInt (take 3 t)) \<longrightarrow>
       promise_state (run (map Response ls @ Response t # rest) c1) pid =
         Some (Resolved \<lparr>code = parseInt (take 3 t), message = drop 4 t, raw = t\<rparr>)) \<and>
    (\<not> code_between 200 400 (parseInt (take 3 t)) \<longrightarrow>
       promise_state (run (map Response ls @ Response t # rest) c1) pid =
         Some (Rejected (Error (''FTP Error '' @ string_of_number (parseInt (take 3 t)) @ '': '' @ drop 4 t))))"
proof -
  let ?p = "\<lparr>p_id = pid, p_command = command, p_allowPreliminary = allow, p_timer = True\<rparr>"
  have keep: "\<forall>l \<in> set ls. \<not> settles (p_allowPreliminary ?p) l"
    using assms(4) by (auto simp: settles_def)
  have fin: "settles (p_allowPreliminary ?p) t"
    using assms(5,6) by (auto simp: settles_def)
  have a: "run (map Response ls) (waiting ?p) = waiting (if ls = [] then ?p else ?p\<lparr>p_timer := False\<rparr>)"
    using keep by (rule waiting_run_keep)
  have b: "run (map Response ls @ Response t # rest) (waiting ?p) = finished pid (settle_reply t)"
    using waiting_run_settle [OF keep fin] by simp
  have 1: "promise_state (run (map Response ls) c1) pid = None"
    using promise_state_run_send(1) [OF assms(1-3)] a
    by (simp add: promise_state_def waiting_def)
  have 2: "filter (\<lambda>p. p_id p = pid) (listeners (run (map Response ls) c1)) \<noteq> []"
    using promise_state_run_send(3) [OF assms(1-3)] a
    by (simp add: waiting_def)
  have 3: "promise_state (run (map Response ls @ Response t # rest) c1) pid = Some (settle_reply t)"
    using promise_state_run_send(1) [OF assms(1-3)] b
    by (simp add: promise_state_def finished_def)
  show ?thesis
    using 1 2 3 by (simp add: settle_reply_def Let_def)
qed


theorem C5_preliminary_replies_witness:
  "promise_state (run [Response ''150 Opening'']
      (snd (sendCommand ''RETR f'' True connected_client))) 0 = None \<and>
   promise_state (run [Response ''150 Opening'', Response ''226 Done'']
      (snd (sendCommand ''RETR f'' True connected_client))) 0 =
     Some (Resolved \<lparr>code = Some 226, message = ''Done'', raw = ''226 Done''\<rparr>) \<and>
   promise_state (run [Response ''550 No such file'', Response ''226 Done'']
      (snd (sendCommand ''RETR f'' False connected_client))) 0 =
     Some (Rejected (Error ''FTP Error 550: No such file''))"
proof -
  have s1: "sendCommand ''RETR f'' True connected_client = (0, snd (sendCommand ''RETR f'' True connected_client))"
    by (simp add: ctl_simps)
  have s2: "sendCommand ''RETR f'' False connected_client = (0, snd (sendCommand ''RETR f'' False connected_client))"
    by (simp add: ctl_simps)
  have con: "connected connected_client" by (simp add: ctl_simps)
  have l1: "\<forall>l \<in> set [''150 Opening'']. charAt 3 l \<noteq> '' '' \<or> (True \<and> code_between 100 200 (parseInt (take 3 l)))"
    by (simp add: js_simps)
  have l2: "\<forall>l \<in> set []. charAt 3 l \<noteq> '' '' \<or> (False \<and> code_between 100 200 (parseInt (take 3 l)))"
    by simp
  have t1: "charAt 3 ''226 Done'' = '' ''" "\<not> (True \<and> code_between 100 200 (parseInt (take 3 ''226 Done'')))"
    by (simp_all add: js_simps)
  have t2: "charAt 3 ''550 No such file'' = '' ''" "\<not> (False \<and> code_between 100 200 (parseInt (take 3 ''550 No such file'')))"
    by (simp_all add: js_simps)
  have v1: "code_between 200 400 (parseInt (take 3 ''226 Done''))" "parseInt (take 3 ''226 Done'') = Some 226"
    by (simp_all add: js_simps)
  have v2: "\<not> code_between 200 400 (parseInt (take 3 ''550 No such file''))"
     "string_of_number (parseInt (take 3 ''550 No such file'')) = ''550''"
    by (simp_all add: js_simps)
  show ?thesis
    using C5_preliminary_replies [OF wf_connected_client con s1 l1 t1, of "[]"]
      C5_preliminary_replies [OF wf_connected_client con s2 l2 t2, of "[Response ''226 Done'']"]
      v1 v2
    by simp
qed

subsection \<open>C6: multi-line replies\<close>

text \<open>
  C6, as stated, holds for every multi-line reply. It fails for a command that tolerates
  preliminary replies when the code of the reply is in 100..199: after the lines
  \<^verbatim>\<open>150-About to open\<close> and \<^verbatim>\<open>150 Opening data connection\<close> nothing is settled and
  the promise of \<^verbatim>\<open>LIST .\<close> is still pending.
\<close>

theorem C6_tolerated_multiline_counterexample:
  "promise_state (run [Response ''150-About to open'', Response ''150 Opening data connection'']
      (snd (sendCommand ''LIST .'' True connected_client))) 0 = None \<and>
   settlements (run [Response ''150-About to open'', Response ''150 Opening data connection'']
      (snd (sendCommand ''LIST .'' True connected_client))) = []"
  by (simp add: js_simps ctl_simps)

text \<open>
  C6 (amended). A command is sent on a connected client and a multi-line reply arrives:
  lines \<open>hs\<close> whose fourth character is a hyphen, then a line \<open>t\<close> whose fourth
  character is a space. Unless the command tolerates preliminary replies and the code of
  \<open>t\<close> is in 100..199, the promise is settled exactly once, whatever follows, with the
  code and message of \<open>t\<close>; the hyphen lines settle nothing.
\<close>

theorem C6_multiline_reply_settles_once:
  assumes "wf_client c0" and "connected c0" and "sendCommand command allow c0 = (pid, c1)"
    and "\<forall>h \<in> set hs. charAt 3 h = ''-''"
    and "charAt 3 t = '' ''"
    and "\<not> (allow \<and> code_between 100 200 (parseInt (take 3 t)))"
  shows "filter (\<lambda>s. fst s = pid) (settlements (run (map Response hs) c1)) = [] \<and>
    filter (\<lambda>s. fst s = pid) (settlements (run (map Response hs @ Response t # rest) c1)) =
      [(pid, settle_reply t)] \<and>
    settle_reply t =
      (if code_between 200 400 (parseInt (take 3 t))
       then Resolved \<lparr>code = parseInt (take 3 t), message = drop 4 t, raw = t\<rparr>
       else Rejected (Error (''FTP Error '' @ string_of_number (parseInt (take 3 t)) @ '': '' @ drop 4 t)))"
proof -
  let ?p = "\<lparr>p_id = pid, p_command = command, p_allowPreliminary = allow, p_timer = True\<rparr>"
  have keep: "\<forall>l \<in> set hs. \<not> settles (p_allowPreliminary ?p) l"
    using assms(4) by (auto simp: settles_def)
  have fin: "settles (p_allowPreliminary ?p) t"
    using assms(5,6) by (auto simp: settles_def)
  have a: "run (map Response hs) (waiting ?p) = waiting (if hs = [] then ?p else ?p\<lparr>p_timer := False\<rparr>)"
    using keep by (rule waiting_run_keep)
  have b: "run (map Response hs @ Response t # rest) (waiting ?p) = finished pid (settle_reply t)"
    using waiting_run_settle [OF keep fin] by simp
  have 1: "filter (\<lambda>s. fst s = pid) (settlements (run (map Response hs) c1)) = []"
    using promise_state_run_send(2) [OF assms(1-3)] a by (simp add: waiting_def)
  have 2: "filter (\<lambda>s. fst s = pid) (settlements (run (map Response hs @ Response t # rest) c1)) =
      [(pid, settle_reply t)]"
    using promise_state_run_send(2) [OF assms(1-3)] b by (simp add: finished_def)
  show ?thesis
    using 1 2 by (simp add: settle_reply_def Let_def)
qed

theorem C6_multiline_reply_settles_once_witness:
  "filter (\<lambda>s. fst s = 0) (settlements (run [Response ''211-Features:'', Response ''211- MDTM'']
      (snd (sendCommand ''FEAT'' False connected_client)))) = [] \<and>
   filter (\<lambda>s. fst s = 0) (settlements
      (run [Response ''211-Features:'', Response ''211- MDTM'', Response ''211 End'', Response ''200 Later'']
      (snd (sendCommand ''FEAT'' False connected_client)))) =
     [(0, Resolved \<lparr>code = Some 211, message = ''End'', raw = ''211 End''\<rparr>)]"
proof -
  have s: "sendCommand ''FEAT'' False connected_client = (0, snd (sendCommand ''FEAT'' False connected_client))"
    by (simp add: ctl_simps)
  have con: "connected connected_client" by (simp add: ctl_simps)
  have h: "\<forall>h \<in> set [''211-Features:'', ''211- MDTM'']. charAt 3 h = ''-''"
    by (simp add: js_simps)
  have t: "charAt 3 ''211 End'' = '' ''" "\<not> (False \<and> code_between 100 200 (parseInt (take 3 ''211 End'')))"
    by (simp_all add: js_simps)
  have v: "code_between 200 400 (parseInt (take 3 ''211 End''))" "parseInt (take 3 ''211 End'') = Some 211"
    by (simp_all add: js_simps)
  show ?thesis
    using C6_multiline_reply_settles_once [OF wf_connected_client con s h t, of "[Response ''200 Later'']"] v
    by simp
qed

subsection \<open>C3: the deadline of a command\<close>

text \<open>
  C3. With no line at all before the deadline, the timer rejects the promise with
  \<^verbatim>\<open>Command timeout: PWD\<close> and removes the listener. After one hyphen-continuation line
  the deadline has no effect: the handler disarmed the timer when the line came in, the
  promise stays pending and the listener stays registered. A new command is accepted in
  both cases; in the second it is registered behind the listener that was left over.
\<close>

theorem C3_continuation_line_disarms_timeout:
  "promise_state (run [Timeout 0] (snd (sendCommand ''PWD'' False connected_client))) 0 =
     Some (Rejected (Error ''Command timeout: PWD'')) \<and>
   listeners (run [Timeout 0] (snd (sendCommand ''PWD'' False connected_client))) = [] \<and>
   promise_state (run [Response ''257-Current directory'', Timeout 0]
     (snd (sendCommand ''PWD'' False connected_client))) 0 = None \<and>
   listeners (run [Response ''257-Current directory'', Timeout 0]
     (snd (sendCommand ''PWD'' False connected_client))) =
     [\<lparr>p_id = 0, p_command = ''PWD'', p_allowPreliminary = False, p_timer = False\<rparr>] \<and>
   map p_id (listeners (snd (sendCommand ''NOOP'' False (run [Timeout 0]
     (snd (sendCommand ''PWD'' False connected_client)))))) = [1] \<and>
   map p_id (listeners (snd (sendCommand ''NOOP'' False (run [Response ''257-Current directory'', Timeout 0]
     (snd (sendCommand ''PWD'' False connected_client)))))) = [0, 1]"
  by (simp add: js_simps ctl_simps)

subsection \<open>C2: a second command while one is pending\<close>




subsection \<open>C9: lines that do not start with a status code\<close>

lemma radix_value_bound:
  "\<forall>c \<in> set z. radix_digit R c \<Longrightarrow> radix_value R acc z < (acc + 1) * R ^ length z"
proof (induction z arbitrary: acc)
  case Nil
  then show ?case by simp
next
  case (Cons c cs)
  from Cons.prems obtain v where v: "digit_value c = Some v" "v < R"
    by (auto simp: radix_digit_def split: option.splits)
  have "radix_value R (acc * R + v) cs < (acc * R + v + 1) * R ^ length cs"
    using Cons.IH [of "acc * R + v"] Cons.prems by simp
  also have "\<dots> \<le> ((acc + 1) * R) * R ^ length cs"
    using v(2) by (intro mult_le_mono1) simp
  finally show ?case using v(1) by (simp add: algebra_simps)
qed

lemma takeWhile_full: "length (takeWhile P xs) = length xs \<Longrightarrow> takeWhile P xs = xs"
  by (induction xs) (auto split: if_splits)

lemma dropWhile_full: "length (dropWhile P xs) = length xs \<Longrightarrow> dropWhile P xs = xs"
proof (cases xs)
  case Nil
  then show ?thesis by simp
next
  case (Cons x ys)
  assume a: "length (dropWhile P xs) = length xs"
  show ?thesis
  proof (cases "P x")
    case True
    then have "length (dropWhile P xs) \<le> length ys"
      using Cons length_dropWhile_le [of P ys] by simp
    with a Cons show ?thesis by simp
  next
    case False
    with Cons show ?thesis by simp
  qed
qed

lemma startsWith_length: "startsWith p s \<Longrightarrow> length p \<le> length s"
proof -
  assume "startsWith p s"
  then have "length (take (length p) s) = length p" by (simp add: startsWith_def)
  then show ?thesis by simp
qed

lemma code_between_weaken: "code_between 200 hi c \<Longrightarrow> code_between 100 hi c"
  by (cases c) (simp_all add: code_between_def)

lemma parseInt_short:
  assumes len: "length s \<le> 3" and nd: "\<not> (length s = 3 \<and> list_all (radix_digit 10) s)"
    and p: "parseInt s = Some n"
  shows "n < 100"
proof -
  define t where "t = dropWhile str_white_space s"
  define t1 where "t1 = (if startsWith ''+'' t \<or> startsWith ''-'' t then drop 1 t else t)"
  define hex where "hex = (startsWith ''0x'' t1 \<or> startsWith ''0X'' t1)"
  define R :: nat where "R = (if hex then 16 else 10)"
  define t2 where "t2 = (if hex then drop 2 t1 else t1)"
  define z where "z = takeWhile (radix_digit R) t2"
  from p have n: "n = (if startsWith ''-'' t then - 1 else 1) * int (radix_value R 0 z)"
    unfolding parseInt_def Let_def t_def [symmetric] t1_def [symmetric] hex_def [symmetric]
      R_def [symmetric] t2_def [symmetric] z_def [symmetric]
    by (simp split: if_splits)
  have zdig: "\<forall>c \<in> set z. radix_digit R c"
    by (auto simp: z_def dest: set_takeWhileD)
  have bound: "radix_value R 0 z < R ^ length z"
    using radix_value_bound [OF zdig, of 0] by simp
  have lt: "length t \<le> length s" by (simp add: t_def length_dropWhile_le)
  have lt1: "length t1 \<le> length t" by (simp add: t1_def)
  show ?thesis
  proof (cases "startsWith ''-'' t")
    case True
    with n show ?thesis by simp
  next
    case pos: False
    with n have nv: "n = int (radix_value R 0 z)" by simp
    show ?thesis
    proof (cases hex)
      case True
      then have "length t1 \<ge> 2" using startsWith_length [of "''0x''" t1] startsWith_length [of "''0X''" t1]
        by (auto simp: hex_def)
      then have "length t2 \<le> 1" using True lt lt1 len by (simp add: t2_def)
      then have "length z \<le> 1"
        using length_takeWhile_le [of "radix_digit R" t2] by (simp add: z_def)
      then have "R ^ length z \<le> 16"
        using True by (cases "length z") (simp_all add: R_def)
      with bound nv show ?thesis by simp
    next
      case False
      then have R: "R = 10" and t2: "t2 = t1" by (simp_all add: R_def t2_def)
      have lz: "length z \<le> length t1"
        using length_takeWhile_le [of "radix_digit R" t2] by (simp add: z_def t2)
      show ?thesis
      proof (cases "length z = 3")
        case True
        with lz lt1 lt len have l3: "length t1 = 3" "length t = 3" "length s = 3" by simp_all
        have "length (dropWhile str_white_space s) = length s" using l3 by (simp add: t_def)
        then have tt: "t = s" unfolding t_def by (rule dropWhile_full)
        have t1t: "t1 = t" using l3 by (auto simp: t1_def split: if_splits)
        have "length (takeWhile (radix_digit R) t1) = length t1" using True l3 by (simp add: z_def t2)
        then have "z = t1" unfolding z_def t2 by (rule takeWhile_full)
        with zdig tt t1t R have "list_all (radix_digit 10) s" by (simp add: list_all_iff)
        with nd l3 show ?thesis by simp
      next
        case False
        with lz lt1 lt len have "length z \<le> 2" by simp
        then have "(10::nat) ^ length z \<le> 10 ^ 2" by (intro power_increasing) simp_all
        with bound nv R show ?thesis by simp
      qed
    qed
  qed
qed

lemma not_three_digits_code:
  "\<not> three_digits line \<Longrightarrow> \<not> code_between 100 hi (parseInt (take 3 line))"
  using parseInt_short [of "take 3 line"]
  by (auto simp: three_digits_def code_between_def split: option.splits)

text \<open>
  C9, as stated, makes such a line fail with a malformed-reply error. The handler has no
  such failure: \<^verbatim>\<open>abcdef\<close> (no space in fourth place) is passed over and the command
  stays pending; \<^verbatim>\<open>abc def\<close> rejects the command with \<^verbatim>\<open>FTP Error NaN: def\<close>, the
  form that a reply with a failure code takes (\<^verbatim>\<open>550 def\<close> gives
  \<^verbatim>\<open>FTP Error 550: def\<close>).
\<close>

theorem C9_malformed_line_counterexample:
  "\<not> three_digits ''abcdef'' \<and> \<not> three_digits ''abc def'' \<and>
   settlements (run [Response ''abcdef''] (snd (sendCommand ''PWD'' False connected_client))) = [] \<and>
   map p_id (listeners (run [Response ''abcdef''] (snd (sendCommand ''PWD'' False connected_client)))) = [0] \<and>
   settlements (run [Response ''abc def''] (snd (sendCommand ''PWD'' False connected_client))) =
     [(0, Rejected (Error ''FTP Error NaN: def''))] \<and>
   settlements (run [Response ''550 def''] (snd (sendCommand ''PWD'' False connected_client))) =
     [(0, Rejected (Error ''FTP Error 550: def''))]"
  by (simp add: js_simps ctl_simps three_digits_def)

text \<open>
  C9 (amended). For a line whose first three characters are not three decimal digits,
  \<^verbatim>\<open>parseInt\<close> of these characters is \<^verbatim>\<open>NaN\<close> or a number below 100, so the line is
  never taken for a reply with a code in 100..999: it neither resolves a command nor
  counts as a preliminary reply. If its fourth character is a space it rejects the
  pending command, once, with \<^verbatim>\<open>FTP Error <parsed>: <message>\<close>; otherwise it is
  passed over, and the command stays pending with its timer disarmed.
\<close>

theorem C9_non_numeric_line_handling:
  assumes "wf_client c0" and "connected c0" and "sendCommand command allow c0 = (pid, c1)"
    and "\<not> three_digits line"
  shows "\<not> code_between 100 1000 (parseInt (take 3 line)) \<and>
    (charAt 3 line = '' '' \<longrightarrow>
       filter (\<lambda>s. fst s = pid) (settlements (run (Response line # rest) c1)) =
         [(pid, Rejected (Error (''FTP Error '' @ string_of_number (parseInt (take 3 line)) @ '': '' @ drop 4 line)))]) \<and>
    (charAt 3 line \<noteq> '' '' \<longrightarrow>
       filter (\<lambda>s. fst s = pid) (settlements (run [Response line] c1)) = [] \<and>
       filter (\<lambda>p. p_id p = pid) (listeners (run [Response line] c1)) =
         [\<lparr>p_id = pid, p_command = command, p_allowPreliminary = allow, p_timer = False\<rparr>])"
proof -
  let ?p = "\<lparr>p_id = pid, p_command = command, p_allowPreliminary = allow, p_timer = True\<rparr>"
  have nc: "\<not> code_between 100 hi (parseInt (take 3 line))" for hi
    using assms(4) by (rule not_three_digits_code)
  have 1: "charAt 3 line = '' '' \<longrightarrow>
       filter (\<lambda>s. fst s = pid) (settlements (run (Response line # rest) c1)) =
         [(pid, Rejected (Error (''FTP Error '' @ string_of_number (parseInt (take 3 line)) @ '': '' @ drop 4 line)))]"
  proof
    assume sp: "charAt 3 line = '' ''"
    then have fin: "settles (p_allowPreliminary ?p) line"
      using nc [of 200] by (simp add: settles_def)
    have "\<not> code_between 200 400 (parseInt (take 3 line))"
      using nc [of 400] code_between_weaken [of 400 "parseInt (take 3 line)"] by blast
    then have sr: "settle_reply line =
        Rejected (Error (''FTP Error '' @ string_of_number (parseInt (take 3 line)) @ '': '' @ drop 4 line))"
      by (simp add: settle_reply_def Let_def)
    have "run (map Response [] @ Response line # rest) (waiting ?p) = finished (p_id ?p) (settle_reply line)"
      by (rule waiting_run_settle [OF _ fin]) simp
    then have "settlements (run (Response line # rest) (waiting ?p)) = [(pid, settle_reply line)]"
      by (simp add: finished_def)
    then show "filter (\<lambda>s. fst s = pid) (settlements (run (Response line # rest) c1)) =
         [(pid, Rejected (Error (''FTP Error '' @ string_of_number (parseInt (take 3 line)) @ '': '' @ drop 4 line)))]"
      using promise_state_run_send(2) [OF assms(1-3), of "Response line # rest"] sr
      by (simp only:)
  qed
  have 2: "charAt 3 line \<noteq> '' '' \<longrightarrow>
       filter (\<lambda>s. fst s = pid) (settlements (run [Response line] c1)) = [] \<and>
       filter (\<lambda>p. p_id p = pid) (listeners (run [Response line] c1)) =
         [\<lparr>p_id = pid, p_command = command, p_allowPreliminary = allow, p_timer = False\<rparr>]"
  proof
    assume "charAt 3 line \<noteq> '' ''"
    then have "\<not> settles (p_allowPreliminary ?p) line" by (simp add: settles_def)
    then have "emit_response line (waiting ?p) = waiting (?p\<lparr>p_timer := False\<rparr>)"
      by (rule waiting_keep)
    then have r: "run [Response line] (waiting ?p) = waiting (?p\<lparr>p_timer := False\<rparr>)"
      by simp
    have "settlements (run [Response line] (waiting ?p)) = []"
      and "listeners (run [Response line] (waiting ?p)) =
         [\<lparr>p_id = pid, p_command = command, p_allowPreliminary = allow, p_timer = False\<rparr>]"
      unfolding r by (simp_all add: waiting_def)
    then show "filter (\<lambda>s. fst s = pid) (settlements (run [Response line] c1)) = [] \<and>
       filter (\<lambda>p. p_id p = pid) (listeners (run [Response line] c1)) =
         [\<lparr>p_id = pid, p_command = command, p_allowPreliminary = allow, p_timer = False\<rparr>]"
      using promise_state_run_send(2,3) [OF assms(1-3), of "[Response line]"]
      by (simp only:)
  qed
  show ?thesis
    using nc [of 1000] 1 2 by (intro conjI) assumption+
qed

theorem C9_non_numeric_line_handling_witness:
  "\<not> code_between 100 1000 (parseInt (take 3 ''2xx ok'')) \<and>
   filter (\<lambda>s. fst s = 0) (settlements (run [Response ''2xx ok'', Response ''257 fine'']
      (snd (sendCommand ''PWD'' False connected_client)))) =
     [(0, Rejected (Error ''FTP Error 2: ok''))] \<and>
   filter (\<lambda>s. fst s = 0) (settlements (run [Response ''hello'']
      (snd (sendCommand ''PWD'' False connected_client)))) = []"
proof -
  have s: "sendCommand ''PWD'' False connected_client = (0, snd (sendCommand ''PWD'' False connected_client))"
    by (simp add: ctl_simps)
  have con: "connected connected_client" by (simp add: ctl_simps)
  have n1: "\<not> three_digits ''2xx ok''" by (simp add: three_digits_def js_simps)
  have n2: "\<not> three_digits ''hello''" by (simp add: three_digits_def js_simps)
  have v1: "charAt 3 ''2xx ok'' = '' ''" "string_of_number (parseInt (take 3 ''2xx ok'')) = ''2''"
    by (simp_all add: js_simps)
  have v2: "charAt 3 ''hello'' \<noteq> '' ''" by (simp add: js_simps)
  show ?thesis
    using C9_non_numeric_line_handling [OF wf_connected_client con s n1, of "[Response ''257 fine'']"]
      C9_non_numeric_line_handling [OF wf_connected_client con s n2, of "[]"] v1 v2
    by simp
qed

section \<open>Passive mode\<close>

lemma digits_then_iff:
  assumes "\<not> is_digit c"
  shows "digits_then c s = Some (g, r) \<longleftrightarrow> digit_group g \<and> s = g @ c # r"
proof
  assume "digits_then c s = Some (g, r)"
  then have g: "g = takeWhile is_digit s" and ne: "g \<noteq> []"
    and d: "dropWhile is_digit s \<noteq> []" "hd (dropWhile is_digit s) = c" "r = tl (dropWhile is_digit s)"
    by (auto simp: digits_then_def Let_def split: if_splits)
  from d have "dropWhile is_digit s = c # r" by (cases "dropWhile is_digit s") auto
  then have "s = g @ c # r" using takeWhile_dropWhile_id [of is_digit s] g by simp
  moreover have "list_all is_digit g" using g by (auto simp: list_all_iff dest: set_takeWhileD)
  ultimately show "digit_group g \<and> s = g @ c # r" using ne by (simp add: digit_group_def)
next
  assume a: "digit_group g \<and> s = g @ c # r"
  then have all: "\<forall>x \<in> set g. is_digit x" by (simp add: digit_group_def list_all_iff)
  have "takeWhile is_digit s = g" using a all assms by (simp add: takeWhile_append2)
  moreover have "dropWhile is_digit s = c # r" using a all assms by (simp add: dropWhile_append2)
  ultimately show "digits_then c s = Some (g, r)"
    using a by (simp add: digits_then_def digit_group_def)
qed

lemma not_digit_comma: "\<not> is_digit CHR '',''" and not_digit_paren: "\<not> is_digit CHR '')''"
  by (simp_all add: is_digit_def radix_digit_def digit_value_def)

lemmas dt_comma = digits_then_iff [OF not_digit_comma]
lemmas dt_paren = digits_then_iff [OF not_digit_paren]

lemma match_at_iff:
  "match_at s = Some g \<longleftrightarrow> pasv_groups g \<and> (\<exists>post. s = pasv_text g @ post)"
proof
  assume m: "match_at s = Some g"
  then obtain r0 where s: "s = CHR ''('' # r0" by (cases s) (auto simp: match_at_def split: if_splits)
  from m s obtain g1 r1 g2 r2 g3 r3 g4 r4 g5 r5 g6 r6 where
    d: "digits_then CHR '','' r0 = Some (g1, r1)" "digits_then CHR '','' r1 = Some (g2, r2)"
       "digits_then CHR '','' r2 = Some (g3, r3)" "digits_then CHR '','' r3 = Some (g4, r4)"
       "digits_then CHR '','' r4 = Some (g5, r5)" "digits_then CHR '')'' r5 = Some (g6, r6)"
    and g: "g = (g1, g2, g3, g4, g5, g6)"
    by (auto simp: match_at_def split: option.splits)
  from d show "pasv_groups g \<and> (\<exists>post. s = pasv_text g @ post)"
    unfolding dt_comma dt_paren by (simp add: g s pasv_groups_def pasv_text_def)
next
  assume a: "pasv_groups g \<and> (\<exists>post. s = pasv_text g @ post)"
  obtain g1 g2 g3 g4 g5 g6 where g: "g = (g1, g2, g3, g4, g5, g6)" by (cases g)
  from a obtain post where s: "s = pasv_text g @ post" by blast
  let ?r5 = "g6 @ CHR '')'' # post"
  let ?r4 = "g5 @ CHR '','' # ?r5"
  let ?r3 = "g4 @ CHR '','' # ?r4"
  let ?r2 = "g3 @ CHR '','' # ?r3"
  let ?r1 = "g2 @ CHR '','' # ?r2"
  let ?r0 = "g1 @ CHR '','' # ?r1"
  have s0: "s = CHR ''('' # ?r0" by (simp add: s g pasv_text_def)
  from a g have dg: "digit_group g1" "digit_group g2" "digit_group g3" "digit_group g4"
    "digit_group g5" "digit_group g6" by (simp_all add: pasv_groups_def)
  have d: "digits_then CHR '','' ?r0 = Some (g1, ?r1)" "digits_then CHR '','' ?r1 = Some (g2, ?r2)"
       "digits_then CHR '','' ?r2 = Some (g3, ?r3)" "digits_then CHR '','' ?r3 = Some (g4, ?r4)"
       "digits_then CHR '','' ?r4 = Some (g5, ?r5)" "digits_then CHR '')'' ?r5 = Some (g6, post)"
    using dg unfolding dt_comma dt_paren by simp_all
  show "match_at s = Some g"
    unfolding s0 match_at_def by (simp add: d g)
qed


lemma match_at_Nil [simp]: "match_at [] = None"
  by (simp add: match_at_def)

lemma pasv_match_leftmost:
  "match_at rest = Some g \<Longrightarrow> (\<forall>m < length pre. match_at (drop m (pre @ rest)) = None) \<Longrightarrow>
   pasv_match (pre @ rest) = Some g"
proof (induction pre)
  case Nil
  then show ?case by (cases rest) auto
next
  case (Cons a pre)
  from Cons.prems(2) have 0: "match_at (a # pre @ rest) = None" by force
  have "\<forall>m < length pre. match_at (drop m (pre @ rest)) = None"
  proof (intro allI impI)
    fix m assume "m < length pre"
    then have "Suc m < length (a # pre)" by simp
    with Cons.prems(2) have "match_at (drop (Suc m) ((a # pre) @ rest)) = None" by blast
    then show "match_at (drop m (pre @ rest)) = None" by simp
  qed
  with Cons.IH Cons.prems(1) have "pasv_match (pre @ rest) = Some g" by blast
  with 0 show ?case by simp
qed

lemma pasv_match_absent:
  "(\<forall>m. match_at (drop m s) = None) \<Longrightarrow> pasv_match s = None"
proof (induction s)
  case Nil
  then show ?case by simp
next
  case (Cons c cs)
  from Cons.prems have 0: "match_at (c # cs) = None" by (metis drop0)
  have "\<forall>m. match_at (drop m cs) = None"
  proof
    fix m
    from Cons.prems have "match_at (drop (Suc m) (c # cs)) = None" by blast
    then show "match_at (drop m cs) = None" by simp
  qed
  with Cons.IH have "pasv_match cs = None" by blast
  with 0 show ?case by simp
qed

lemma radix_value_decimal:
  "list_all is_digit g \<Longrightarrow> radix_value 10 acc g = acc * 10 ^ length g + decimal_value g"
proof (induction g arbitrary: acc)
  case Nil
  then show ?case by simp
next
  case (Cons c cs)
  from Cons.prems have "is_digit c" by simp
  then have dv: "digit_value c = Some (of_char c - 48)"
    by (auto simp: is_digit_def radix_digit_def digit_value_def Let_def split: if_splits)
  from Cons have "radix_value 10 (acc * 10 + (of_char c - 48)) cs =
      (acc * 10 + (of_char c - 48)) * 10 ^ length cs + decimal_value cs"
    by simp
  then show ?case by (simp add: dv algebra_simps)
qed

lemma is_digit_facts:
  "is_digit c \<Longrightarrow> \<not> str_white_space c \<and> c \<noteq> CHR ''+'' \<and> c \<noteq> CHR ''-'' \<and> c \<noteq> CHR ''x'' \<and> c \<noteq> CHR ''X''"
  by (auto simp: is_digit_def radix_digit_def digit_value_def str_white_space_def Let_def split: if_splits)

lemma parseInt_digit_group:
  assumes "digit_group g"
  shows "parseInt g = Some (int (decimal_value g))"
proof -
  from assms obtain c cs where g: "g = c # cs" and all: "list_all is_digit (c # cs)"
    by (cases g) (auto simp: digit_group_def)
  then have c: "is_digit c" by simp
  note f = is_digit_facts [OF c]
  have ws: "dropWhile str_white_space g = g" using f by (simp add: g)
  have sign: "\<not> startsWith ''+'' g" "\<not> startsWith ''-'' g" using f by (simp_all add: g startsWith_def)
  have hex: "\<not> startsWith ''0x'' g" "\<not> startsWith ''0X'' g"
  proof -
    { fix d ds assume "cs = d # ds"
      with all have "is_digit d" by simp
      then have "d \<noteq> CHR ''x'' \<and> d \<noteq> CHR ''X''" using is_digit_facts by blast }
    then show "\<not> startsWith ''0x'' g" "\<not> startsWith ''0X'' g"
      by (cases cs; simp add: g startsWith_def)+
  qed
  have tw: "takeWhile (radix_digit 10) g = g"
    using all by (simp add: g takeWhile_eq_all_conv list_all_iff is_digit_def)
  have "radix_value 10 0 g = decimal_value g"
    using radix_value_decimal [of g 0] all g by simp
  then show ?thesis
    by (simp add: parseInt_def Let_def ws sign hex tw) (simp add: g)
qed

lemma enterPassiveMode_found:
  assumes g: "pasv_groups (h1, h2, h3, h4, p1, p2)"
    and m: "message r = pre @ pasv_text (h1, h2, h3, h4, p1, p2) @ post"
    and left: "\<forall>pre' g' post'. pasv_groups g' \<and> message r = pre' @ pasv_text g' @ post'
        \<longrightarrow> length pre \<le> length pre'"
  shows "enterPassiveMode (Resolved r) =
    Inr \<lparr>host = h1 @ ''.'' @ h2 @ ''.'' @ h3 @ ''.'' @ h4,
         port = Some (int (decimal_value p1 * 256 + decimal_value p2))\<rparr>"
proof -
  let ?g = "(h1, h2, h3, h4, p1, p2)"
  have here: "match_at (pasv_text ?g @ post) = Some ?g"
    using g by (auto simp: match_at_iff)
  have none: "\<forall>k < length pre. match_at (drop k (pre @ pasv_text ?g @ post)) = None"
  proof (intro allI impI)
    fix k assume k: "k < length pre"
    show "match_at (drop k (pre @ pasv_text ?g @ post)) = None"
    proof (rule ccontr)
      assume "match_at (drop k (pre @ pasv_text ?g @ post)) \<noteq> None"
      then obtain g' where "match_at (drop k (message r)) = Some g'" using m by auto
      then obtain post' where g': "pasv_groups g'" and d: "drop k (message r) = pasv_text g' @ post'"
        by (auto simp: match_at_iff)
      have "message r = take k (message r) @ pasv_text g' @ post'"
        using d append_take_drop_id [of k "message r"] by simp
      with g' left have "length pre \<le> length (take k (message r))" by blast
      with k show False by simp
    qed
  qed
  have pm: "pasv_match (message r) = Some ?g"
    unfolding m by (rule pasv_match_leftmost [OF here none])
  from g have "digit_group p1" "digit_group p2" by (simp_all add: pasv_groups_def)
  then have "parseInt p1 = Some (int (decimal_value p1))" "parseInt p2 = Some (int (decimal_value p2))"
    by (simp_all add: parseInt_digit_group)
  with pm show ?thesis
    by (simp add: enterPassiveMode_def js_plus_def js_times_def)
qed

lemma enterPassiveMode_absent:
  assumes "\<not> (\<exists>pre g post. pasv_groups g \<and> message r = pre @ pasv_text g @ post)"
  shows "enterPassiveMode (Resolved r) = Inl (Error ''Failed to parse PASV response'')"
proof -
  have "\<forall>k. match_at (drop k (message r)) = None"
  proof
    fix k
    show "match_at (drop k (message r)) = None"
    proof (rule ccontr)
      assume "match_at (drop k (message r)) \<noteq> None"
      then obtain g' where "match_at (drop k (message r)) = Some g'" by auto
      then obtain post' where g': "pasv_groups g'" and d: "drop k (message r) = pasv_text g' @ post'"
        by (auto simp: match_at_iff)
      have "message r = take k (message r) @ pasv_text g' @ post'"
        using d append_take_drop_id [of k "message r"] by simp
      with g' assms show False by blast
    qed
  qed
  then have "pasv_match (message r) = None" by (rule pasv_match_absent)
  then show ?thesis by (simp add: enterPassiveMode_def)
qed

lemma pasv_text_paren: "\<exists>t. pasv_text g = CHR ''('' # t"
  by (cases g) (simp add: pasv_text_def)

lemma paren_free_leftmost:
  assumes "CHR ''('' \<notin> set pre" and "pre @ s = pre' @ pasv_text g' @ post'"
  shows "length pre \<le> length pre'"
proof (rule ccontr)
  assume "\<not> length pre \<le> length pre'"
  then have lt: "length pre' < length pre" by simp
  obtain t where t: "pasv_text g' = CHR ''('' # t" using pasv_text_paren by blast
  have "(pre @ s) ! length pre' = pre ! length pre'" using lt by (simp add: nth_append)
  moreover have "(pre' @ pasv_text g' @ post') ! length pre' = CHR ''(''" by (simp add: t)
  ultimately have "pre ! length pre' = CHR ''(''" using assms(2) by simp
  with lt assms(1) show False by (metis nth_mem)
qed

lemma paren_free_absent:
  assumes "CHR ''('' \<notin> set s"
  shows "\<not> (\<exists>pre g post. pasv_groups g \<and> s = pre @ pasv_text g @ post)"
proof
  assume "\<exists>pre g post. pasv_groups g \<and> s = pre @ pasv_text g @ post"
  then obtain pre g post where s: "s = pre @ pasv_text g @ post" by blast
  obtain t where "pasv_text g = CHR ''('' # t" using pasv_text_paren by blast
  with s assms show False by simp
qed

subsection \<open>C7: decoding the reply to \<^verbatim>\<open>PASV\<close>\<close>

text \<open>
  C7. If the message of the reply contains the six-group pattern \<open>(h1,h2,h3,h4,p1,p2)\<close>,
  at the leftmost place where the pattern occurs in it, then \<^verbatim>\<open>_enterPassiveMode\<close>
  returns the host \<open>h1.h2.h3.h4\<close> and the port \<open>p1 * 256 + p2\<close>. (The groups of the port
  are taken short enough for the numbers of JavaScript to be exact: up to 13 and 15
  digits.) If the pattern occurs nowhere in the message, the function fails with
  \<^verbatim>\<open>Failed to parse PASV response\<close>. In particular the message
  \<^verbatim>\<open>227 Entering Passive Mode (10,0,0,5,78,23)\<close> gives host \<^verbatim>\<open>10.0.0.5\<close> and port 19991.
\<close>

theorem C7_passive_reply_decoding:
  "(pasv_groups (h1, h2, h3, h4, p1, p2) \<and>
    message r = pre @ pasv_text (h1, h2, h3, h4, p1, p2) @ post \<and>
    (\<forall>pre' g' post'. pasv_groups g' \<and> message r = pre' @ pasv_text g' @ post'
        \<longrightarrow> length pre \<le> length pre') \<and>
    length p1 \<le> 13 \<and> length p2 \<le> 15 \<longrightarrow>
    enterPassiveMode (Resolved r) =
      Inr \<lparr>host = h1 @ ''.'' @ h2 @ ''.'' @ h3 @ ''.'' @ h4,
           port = Some (int (decimal_value p1 * 256 + decimal_value p2))\<rparr>) \<and>
   (\<not> (\<exists>pre g post. pasv_groups g \<and> message r = pre @ pasv_text g @ post) \<longrightarrow>
    enterPassiveMode (Resolved r) = Inl (Error ''Failed to parse PASV response'')) \<and>
   enterPassiveMode (Resolved \<lparr>code = Some 227,
       message = ''227 Entering Passive Mode (10,0,0,5,78,23)'',
       raw = ''227 Entering Passive Mode (10,0,0,5,78,23)''\<rparr>) =
     Inr \<lparr>host = ''10.0.0.5'', port = Some 19991\<rparr>"
proof (intro conjI impI)
  assume "pasv_groups (h1, h2, h3, h4, p1, p2) \<and>
    message r = pre @ pasv_text (h1, h2, h3, h4, p1, p2) @ post \<and>
    (\<forall>pre' g' post'. pasv_groups g' \<and> message r = pre' @ pasv_text g' @ post'
        \<longrightarrow> length pre \<le> length pre') \<and>
    length p1 \<le> 13 \<and> length p2 \<le> 15"
  then show "enterPassiveMode (Resolved r) =
      Inr \<lparr>host = h1 @ ''.'' @ h2 @ ''.'' @ h3 @ ''.'' @ h4,
           port = Some (int (decimal_value p1 * 256 + decimal_value p2))\<rparr>"
    using enterPassiveMode_found [of h1 h2 h3 h4 p1 p2 r pre post] by blast
next
  assume "\<not> (\<exists>pre g post. pasv_groups g \<and> message r = pre @ pasv_text g @ post)"
  then show "enterPassiveMode (Resolved r) = Inl (Error ''Failed to parse PASV response'')"
    by (rule enterPassiveMode_absent)
next
  show "enterPassiveMode (Resolved \<lparr>code = Some 227,
       message = ''227 Entering Passive Mode (10,0,0,5,78,23)'',
       raw = ''227 Entering Passive Mode (10,0,0,5,78,23)''\<rparr>) =
     Inr \<lparr>host = ''10.0.0.5'', port = Some 19991\<rparr>"
    by (simp add: enterPassiveMode_def match_at_def digits_then_def is_digit_def js_plus_def
        js_times_def js_simps)
qed

theorem C7_passive_reply_decoding_witness:
  "enterPassiveMode (Resolved \<lparr>code = Some 227,
       message = ''Entering Passive Mode (192,168,001,20,4,1). (1,2'', raw = ''''\<rparr>) =
     Inr \<lparr>host = ''192.168.001.20'', port = Some 1025\<rparr> \<and>
   enterPassiveMode (Resolved \<lparr>code = Some 227, message = ''Entering Passive Mode'', raw = ''''\<rparr>) =
     Inl (Error ''Failed to parse PASV response'')"
proof -
  let ?r = "\<lparr>code = Some 227, message = ''Entering Passive Mode (192,168,001,20,4,1). (1,2'', raw = ''''\<rparr>"
  let ?q = "\<lparr>code = Some 227, message = ''Entering Passive Mode'', raw = ''''\<rparr>"
  have g: "pasv_groups (''192'', ''168'', ''001'', ''20'', ''4'', ''1'')"
    by (simp add: pasv_groups_def digit_group_def is_digit_def js_simps)
  have m: "message ?r = ''Entering Passive Mode '' @ pasv_text (''192'', ''168'', ''001'', ''20'', ''4'', ''1'') @ ''. (1,2''"
    by (simp add: pasv_text_def)
  have l: "\<forall>pre' g' post'. pasv_groups g' \<and> message ?r = pre' @ pasv_text g' @ post'
      \<longrightarrow> length ''Entering Passive Mode '' \<le> length pre'"
  proof (intro allI impI)
    fix pre' g' post'
    assume "pasv_groups g' \<and> message ?r = pre' @ pasv_text g' @ post'"
    then have "''Entering Passive Mode '' @ ''(192,168,001,20,4,1). (1,2'' = pre' @ pasv_text g' @ post'"
      by simp
    then show "length ''Entering Passive Mode '' \<le> length pre'"
      by (rule paren_free_leftmost [rotated]) simp
  qed
  have n: "\<not> (\<exists>pre g post. pasv_groups g \<and> message ?q = pre @ pasv_text g @ post)"
    by (rule paren_free_absent) simp
  have len: "length ''4'' \<le> 13" "length ''1'' \<le> 15" by simp_all
  have v: "int (decimal_value ''4'' * 256 + decimal_value ''1'') = 1025" by simp
  show ?thesis
    using C7_passive_reply_decoding [of "''192''" "''168''" "''001''" "''20''" "''4''" "''1''" ?r
        "''Entering Passive Mode ''" "''. (1,2''"]
      C7_passive_reply_decoding [of "''''" "''''" "''''" "''''" "''''" "''''" ?q "''''" "''''"]
      g m l n len v
    by (simp only: simp_thms) simp
qed

section \<open>The command layer\<close>

lemma cd_rejected:
  "is_rejected (reply env h (''CWD '' @ p)) \<Longrightarrow> \<exists>e. cd env p h = (Failed e, h @ [''CWD '' @ p])"
  by (auto simp: cd_def connection_sendCommand_def is_rejected_def split: promise.splits)

lemma mkdir_tolerated:
  "mkd_tolerated (reply env h (''MKD '' @ p)) \<Longrightarrow>
   (case mkdir env p h of
      (Fulfilled u, h3) \<Rightarrow> (Fulfilled (), h3)
    | (Pending, h3) \<Rightarrow> (Pending, h3)
    | (Failed (Error msg), h3) \<Rightarrow>
        if \<not> includes_str ''550'' msg \<and> \<not> includes_str ''exists'' msg
        then (Failed (Error msg), h3)
        else (Fulfilled (), h3)) = (Fulfilled (), h @ [''MKD '' @ p])"
  by (auto simp: mkdir_def connection_sendCommand_def mkd_tolerated_def split: promise.splits error.splits)

lemmas path_simps = target_of_def has_extension_def getParentDir_def normalizePath_def parent_of_def
  lastIndexOf_def substring0_def backslash_def Let_def

lemma ensureDir_a:
  assumes "is_rejected (reply env h ''CWD /a'')" "mkd_tolerated (reply env (h @ [''CWD /a'']) ''MKD /a'')"
  shows "ensureDir env ''/a'' True h = (Fulfilled (), h @ [''CWD /a'', ''MKD /a''])"
proof -
  obtain e where cd: "cd env ''/a'' h = (Failed e, h @ [''CWD /a''])"
    using cd_rejected [of env h "''/a''"] assms(1) by auto
  have t: "target_of ''/a'' = ''/a''" "normalizePath ''/a'' = ''/a''" "parent_of ''/a'' = ''/''"
    by (simp_all add: path_simps)
  show ?thesis
    using mkdir_tolerated [of env "h @ [''CWD /a'']" "''/a''"] assms(2)
    by (subst ensureDir.simps) (simp add: t cd Let_def)
qed

lemma ensureDir_step:
  assumes t: "target_of p = p" "normalizePath p = p" "parent_of p = q"
    and p: "p \<noteq> []" "p \<noteq> ''.''" "p \<noteq> ''/''" "q \<noteq> ''/''" "q \<noteq> ''.''"
    and cdr: "is_rejected (reply env h (''CWD '' @ p))"
    and rec: "ensureDir env q True (h @ [''CWD '' @ p]) = (Fulfilled (), h')"
    and mk: "mkd_tolerated (reply env h' (''MKD '' @ p))"
  shows "ensureDir env p True h = (Fulfilled (), h' @ [''MKD '' @ p])"
proof -
  obtain e where cd: "cd env p h = (Failed e, h @ [''CWD '' @ p])"
    using cd_rejected [OF cdr] by auto
  show ?thesis
    using mkdir_tolerated [OF mk] p rec
    by (subst ensureDir.simps) (simp add: t cd Let_def)
qed

lemma ensureDir_isFilePath_a:
  assumes "is_rejected (reply env h ''CWD /a'')" "mkd_tolerated (reply env (h @ [''CWD /a'']) ''MKD /a'')"
  shows "ensureDir_isFilePath env ''/a'' True False h = (Fulfilled (), h @ [''CWD /a'', ''MKD /a''])"
proof -
  obtain e where cd: "cd env ''/a'' h = (Failed e, h @ [''CWD /a''])"
    using cd_rejected [of env h "''/a''"] assms(1) by auto
  have t: "normalizePath ''/a'' = ''/a''" "parent_of ''/a'' = ''/''"
    by (simp_all add: path_simps)
  show ?thesis
    using mkdir_tolerated [of env "h @ [''CWD /a'']" "''/a''"] assms(2)
    by (subst ensureDir_isFilePath.simps) (simp add: t cd Let_def)
qed

lemma ensureDir_isFilePath_step:
  assumes t: "normalizePath p = p" "parent_of p = q"
    and p: "p \<noteq> []" "p \<noteq> ''.''" "p \<noteq> ''/''" "q \<noteq> ''/''" "q \<noteq> ''.''"
    and cdr: "is_rejected (reply env h (''CWD '' @ p))"
    and rec: "ensureDir_isFilePath env q True False (h @ [''CWD '' @ p]) = (Fulfilled (), h')"
    and mk: "mkd_tolerated (reply env h' (''MKD '' @ p))"
  shows "ensureDir_isFilePath env p True False h = (Fulfilled (), h' @ [''MKD '' @ p])"
proof -
  obtain e where cd: "cd env p h = (Failed e, h @ [''CWD '' @ p])"
    using cd_rejected [OF cdr] by auto
  show ?thesis
    using mkdir_tolerated [OF mk] p rec
    by (subst ensureDir_isFilePath.simps) (simp add: t cd Let_def)
qed

lemma paths_abc:
  "target_of ''/a/b'' = ''/a/b''" "normalizePath ''/a/b'' = ''/a/b''" "parent_of ''/a/b'' = ''/a''"
  "target_of ''/a/b/c'' = ''/a/b/c''" "normalizePath ''/a/b/c'' = ''/a/b/c''" "parent_of ''/a/b/c'' = ''/a/b''"
  by (simp_all add: path_simps)

subsection \<open>C8: the creation attempts of \<^verbatim>\<open>ensureDir\<close>\<close>

text \<open>
  C8, as stated, asks only that the change-directory probes fail. That is not enough: on
  a server that has none of the directories and refuses \<^verbatim>\<open>MKD\<close> with the reply
  \<^verbatim>\<open>553 Could not create directory\<close>, the first creation attempt fails with an error
  whose message holds neither \<^verbatim>\<open>550\<close> nor \<^verbatim>\<open>exists\<close>; \<^verbatim>\<open>ensureDir\<close> throws it on, and
  \<^verbatim>\<open>ensureDir("/a/b/c")\<close> ends after the one command \<^verbatim>\<open>MKD /a\<close>. Both versions of the
  function do.
\<close>

theorem C8_creation_refused_counterexample:
  "is_rejected (reply readonly_server [] ''CWD /a/b/c'') \<and>
   is_rejected (reply readonly_server [''CWD /a/b/c''] ''CWD /a/b'') \<and>
   is_rejected (reply readonly_server [''CWD /a/b/c'', ''CWD /a/b''] ''CWD /a'') \<and>
   ensureDir readonly_server ''/a/b/c'' True [] =
     (Failed (Error ''FTP Error 553: Could not create directory''),
      [''CWD /a/b/c'', ''CWD /a/b'', ''CWD /a'', ''MKD /a'']) \<and>
   ensureDir_isFilePath readonly_server ''/a/b/c'' True False [] =
     (Failed (Error ''FTP Error 553: Could not create directory''),
      [''CWD /a/b/c'', ''CWD /a/b'', ''CWD /a'', ''MKD /a''])"
proof -
  have x: "\<not> includes_str ''550'' ''FTP Error 553: Could not create directory''"
    "\<not> includes_str ''exists'' ''FTP Error 553: Could not create directory''"
    by (simp_all add: js_simps)
  have cd: "\<And>p h. cd readonly_server p h =
      (Failed (Error ''FTP Error 550: No such file or directory''), h @ [''CWD '' @ p])"
    by (simp add: cd_def connection_sendCommand_def readonly_server_def startsWith_def)
  have mk: "\<And>p h. mkdir readonly_server p h =
      (Failed (Error ''FTP Error 553: Could not create directory''), h @ [''MKD '' @ p])"
    by (simp add: mkdir_def connection_sendCommand_def readonly_server_def startsWith_def)
  have pa: "target_of ''/a'' = ''/a''" "normalizePath ''/a'' = ''/a''" "parent_of ''/a'' = ''/''"
    by (simp_all add: path_simps)
  have a: "ensureDir readonly_server ''/a'' True [''CWD /a/b/c'', ''CWD /a/b''] =
      (Failed (Error ''FTP Error 553: Could not create directory''),
       [''CWD /a/b/c'', ''CWD /a/b'', ''CWD /a'', ''MKD /a''])"
    using x by (subst ensureDir.simps) (simp add: pa cd mk Let_def)
  have b: "ensureDir readonly_server ''/a/b'' True [''CWD /a/b/c''] =
      (Failed (Error ''FTP Error 553: Could not create directory''),
       [''CWD /a/b/c'', ''CWD /a/b'', ''CWD /a'', ''MKD /a''])"
    using a by (subst ensureDir.simps) (simp add: paths_abc cd Let_def)
  have c: "ensureDir readonly_server ''/a/b/c'' True [] =
      (Failed (Error ''FTP Error 553: Could not create directory''),
       [''CWD /a/b/c'', ''CWD /a/b'', ''CWD /a'', ''MKD /a''])"
    using b by (subst ensureDir.simps) (simp add: paths_abc cd Let_def)
  have a': "ensureDir_isFilePath readonly_server ''/a'' True False [''CWD /a/b/c'', ''CWD /a/b''] =
      (Failed (Error ''FTP Error 553: Could not create directory''),
       [''CWD /a/b/c'', ''CWD /a/b'', ''CWD /a'', ''MKD /a''])"
    using x by (subst ensureDir_isFilePath.simps) (simp add: pa cd mk Let_def)
  have b': "ensureDir_isFilePath readonly_server ''/a/b'' True False [''CWD /a/b/c''] =
      (Failed (Error ''FTP Error 553: Could not create directory''),
       [''CWD /a/b/c'', ''CWD /a/b'', ''CWD /a'', ''MKD /a''])"
    using a' by (subst ensureDir_isFilePath.simps) (simp add: paths_abc cd Let_def)
  have c': "ensureDir_isFilePath readonly_server ''/a/b/c'' True False [] =
      (Failed (Error ''FTP Error 553: Could not create directory''),
       [''CWD /a/b/c'', ''CWD /a/b'', ''CWD /a'', ''MKD /a''])"
    using b' by (subst ensureDir_isFilePath.simps) (simp add: paths_abc cd Let_def)
  have r: "is_rejected (reply readonly_server [] ''CWD /a/b/c'')"
    "is_rejected (reply readonly_server [''CWD /a/b/c''] ''CWD /a/b'')"
    "is_rejected (reply readonly_server [''CWD /a/b/c'', ''CWD /a/b''] ''CWD /a'')"
    by (simp_all add: readonly_server_def is_rejected_def startsWith_def)
  from r c c' show ?thesis by (intro conjI)
qed

text \<open>
  C8 (amended). On a session where the change-directory probe fails for \<^verbatim>\<open>/a/b/c\<close>, then
  for \<^verbatim>\<open>/a/b\<close>, then for \<^verbatim>\<open>/a\<close>, and where each of the three creation attempts either
  succeeds or fails with an error whose message contains \<^verbatim>\<open>550\<close> or \<^verbatim>\<open>exists\<close>,
  \<^verbatim>\<open>ensureDir("/a/b/c")\<close> issues the three probes and then exactly three \<^verbatim>\<open>MKD\<close> commands,
  for \<^verbatim>\<open>/a\<close>, \<^verbatim>\<open>/a/b\<close> and \<^verbatim>\<open>/a/b/c\<close> in this order, and returns. Both versions of the
  function do.
\<close>

theorem C8_ensureDir_creation_order:
  assumes "is_rejected (reply env h ''CWD /a/b/c'')"
    and "is_rejected (reply env (h @ [''CWD /a/b/c'']) ''CWD /a/b'')"
    and "is_rejected (reply env (h @ [''CWD /a/b/c'', ''CWD /a/b'']) ''CWD /a'')"
    and "mkd_tolerated (reply env (h @ [''CWD /a/b/c'', ''CWD /a/b'', ''CWD /a'']) ''MKD /a'')"
    and "mkd_tolerated (reply env (h @ [''CWD /a/b/c'', ''CWD /a/b'', ''CWD /a'', ''MKD /a'']) ''MKD /a/b'')"
    and "mkd_tolerated (reply env (h @ [''CWD /a/b/c'', ''CWD /a/b'', ''CWD /a'', ''MKD /a'', ''MKD /a/b''])
           ''MKD /a/b/c'')"
  shows "ensureDir env ''/a/b/c'' True h =
      (Fulfilled (), h @ [''CWD /a/b/c'', ''CWD /a/b'', ''CWD /a'', ''MKD /a'', ''MKD /a/b'', ''MKD /a/b/c'']) \<and>
    ensureDir_isFilePath env ''/a/b/c'' True False h =
      (Fulfilled (), h @ [''CWD /a/b/c'', ''CWD /a/b'', ''CWD /a'', ''MKD /a'', ''MKD /a/b'', ''MKD /a/b/c''])"
proof
  have a: "ensureDir env ''/a'' True (h @ [''CWD /a/b/c'', ''CWD /a/b'']) =
      (Fulfilled (), h @ [''CWD /a/b/c'', ''CWD /a/b'', ''CWD /a'', ''MKD /a''])"
    using ensureDir_a [of env "h @ [''CWD /a/b/c'', ''CWD /a/b'']"] assms(3,4) by simp
  have b: "ensureDir env ''/a/b'' True (h @ [''CWD /a/b/c'']) =
      (Fulfilled (), h @ [''CWD /a/b/c'', ''CWD /a/b'', ''CWD /a'', ''MKD /a'', ''MKD /a/b''])"
    using ensureDir_step [of "''/a/b''" "''/a''" env "h @ [''CWD /a/b/c'']"
        "h @ [''CWD /a/b/c'', ''CWD /a/b'', ''CWD /a'', ''MKD /a'']"] assms(2,5) a
    by (simp add: paths_abc)
  show "ensureDir env ''/a/b/c'' True h =
      (Fulfilled (), h @ [''CWD /a/b/c'', ''CWD /a/b'', ''CWD /a'', ''MKD /a'', ''MKD /a/b'', ''MKD /a/b/c''])"
    using ensureDir_step [of "''/a/b/c''" "''/a/b''" env h
        "h @ [''CWD /a/b/c'', ''CWD /a/b'', ''CWD /a'', ''MKD /a'', ''MKD /a/b'']"] assms(1,6) b
    by (simp add: paths_abc)
next
  have a: "ensureDir_isFilePath env ''/a'' True False (h @ [''CWD /a/b/c'', ''CWD /a/b'']) =
      (Fulfilled (), h @ [''CWD /a/b/c'', ''CWD /a/b'', ''CWD /a'', ''MKD /a''])"
    using ensureDir_isFilePath_a [of env "h @ [''CWD /a/b/c'', ''CWD /a/b'']"] assms(3,4) by simp
  have b: "ensureDir_isFilePath env ''/a/b'' True False (h @ [''CWD /a/b/c'']) =
      (Fulfilled (), h @ [''CWD /a/b/c'', ''CWD /a/b'', ''CWD /a'', ''MKD /a'', ''MKD /a/b''])"
    using ensureDir_isFilePath_step [of "''/a/b''" "''/a''" env "h @ [''CWD /a/b/c'']"
        "h @ [''CWD /a/b/c'', ''CWD /a/b'', ''CWD /a'', ''MKD /a'']"] assms(2,5) a
    by (simp add: paths_abc)
  show "ensureDir_isFilePath env ''/a/b/c'' True False h =
      (Fulfilled (), h @ [''CWD /a/b/c'', ''CWD /a/b'', ''CWD /a'', ''MKD /a'', ''MKD /a/b'', ''MKD /a/b/c''])"
    using ensureDir_isFilePath_step [of "''/a/b/c''" "''/a/b''" env h
        "h @ [''CWD /a/b/c'', ''CWD /a/b'', ''CWD /a'', ''MKD /a'', ''MKD /a/b'']"] assms(1,6) b
    by (simp add: paths_abc)
qed

theorem C8_ensureDir_creation_order_witness:
  "ensureDir directory_server ''/a/b/c'' True [] =
      (Fulfilled (), [''CWD /a/b/c'', ''CWD /a/b'', ''CWD /a'', ''MKD /a'', ''MKD /a/b'', ''MKD /a/b/c'']) \<and>
   ensureDir_isFilePath directory_server ''/a/b/c'' True False [] =
      (Fulfilled (), [''CWD /a/b/c'', ''CWD /a/b'', ''CWD /a'', ''MKD /a'', ''MKD /a/b'', ''MKD /a/b/c''])"
proof -
  have r: "is_rejected (reply directory_server [] ''CWD /a/b/c'')"
    "is_rejected (reply directory_server ([] @ [''CWD /a/b/c'']) ''CWD /a/b'')"
    "is_rejected (reply directory_server ([] @ [''CWD /a/b/c'', ''CWD /a/b'']) ''CWD /a'')"
    by (simp_all add: directory_server_def is_rejected_def startsWith_def)
  have m: "mkd_tolerated (reply directory_server ([] @ [''CWD /a/b/c'', ''CWD /a/b'', ''CWD /a'']) ''MKD /a'')"
    "mkd_tolerated (reply directory_server ([] @ [''CWD /a/b/c'', ''CWD /a/b'', ''CWD /a'', ''MKD /a'']) ''MKD /a/b'')"
    "mkd_tolerated (reply directory_server
       ([] @ [''CWD /a/b/c'', ''CWD /a/b'', ''CWD /a'', ''MKD /a'', ''MKD /a/b'']) ''MKD /a/b/c'')"
    by (simp_all add: directory_server_def mkd_tolerated_def startsWith_def)
  show ?thesis
    using C8_ensureDir_creation_order [OF r m] by simp
qed

subsection \<open>C10: \<^verbatim>\<open>stat\<close> and \<^verbatim>\<open>exists\<close> never reject\<close>

lemma listing_probe_not_Failed: "listing_probe env path h \<noteq> (Failed e, h')"
  by (auto simp: listing_probe_def Let_def split: prod.splits promise.splits)

lemma stat_not_Failed: "stat env path h \<noteq> (Failed e, h')"
  using listing_probe_not_Failed [of env path _ e h']
  by (auto simp: stat_def split: prod.splits promise.splits)

lemma exists_path_not_Failed: "exists_path env path h \<noteq> (Failed e, h')"
  using stat_not_Failed [of env path h e]
  by (auto simp: exists_path_def split: prod.splits promise.splits)

lemma size_of_settles:
  "\<forall>h c. reply env h c \<noteq> Pending \<Longrightarrow> size_of env path h \<noteq> (Pending, h')"
  by (auto simp: size_of_def connection_sendCommand_def split: prod.splits promise.splits)

lemma cd_settles:
  "\<forall>h c. reply env h c \<noteq> Pending \<Longrightarrow> cd env path h \<noteq> (Pending, h')"
  by (auto simp: cd_def connection_sendCommand_def split: prod.splits promise.splits)

lemma pwd_settles:
  "\<forall>h c. reply env h c \<noteq> Pending \<Longrightarrow> pwd env h \<noteq> (Pending, h')"
  by (auto simp: pwd_def connection_sendCommand_def split: prod.splits promise.splits)

lemma directory_probe_settles:
  "\<forall>h c. reply env h c \<noteq> Pending \<Longrightarrow> directory_probe env path h \<noteq> (Pending, h')"
  using cd_settles [of env] pwd_settles [of env]
  by (auto simp: directory_probe_def split: prod.splits promise.splits)

lemma listing_probe_settles:
  "\<forall>h p. listing env h p \<noteq> Pending \<Longrightarrow> listing_probe env path h \<noteq> (Pending, h')"
  by (auto simp: listing_probe_def list_dir_def Let_def split: prod.splits promise.splits)

lemma stat_settles:
  assumes "\<forall>h c. reply env h c \<noteq> Pending" "\<forall>h p. listing env h p \<noteq> Pending"
  shows "stat env path h \<noteq> (Pending, h')"
  using size_of_settles [OF assms(1), of path] directory_probe_settles [OF assms(1), of path]
    listing_probe_settles [OF assms(2), of path]
  by (auto simp: stat_def split: prod.splits promise.splits)

lemma stat_resolves:
  assumes "\<forall>h c. reply env h c \<noteq> Pending" "\<forall>h p. listing env h p \<noteq> Pending"
  shows "\<exists>info h'. stat env path h = (Fulfilled info, h')"
proof -
  obtain r h' where s: "stat env path h = (r, h')" by (cases "stat env path h")
  with stat_settles [OF assms, of path h h'] stat_not_Failed [of env path h _ h']
  show ?thesis by (cases r) auto
qed

lemma sendCommand_Pending:
  "connection_sendCommand env c h = (Pending, h') \<Longrightarrow> last_call_pending env h'"
  by (auto simp: connection_sendCommand_def last_call_pending_def)

lemma size_of_Pending: "size_of env path h = (Pending, h') \<Longrightarrow> last_call_pending env h'"
  using sendCommand_Pending [of env "''SIZE '' @ path" h h']
  by (auto simp: size_of_def split: prod.splits promise.splits)

lemma cd_Pending: "cd env path h = (Pending, h') \<Longrightarrow> last_call_pending env h'"
  using sendCommand_Pending [of env "''CWD '' @ path" h h']
  by (auto simp: cd_def split: prod.splits promise.splits)

lemma pwd_Pending: "pwd env h = (Pending, h') \<Longrightarrow> last_call_pending env h'"
  using sendCommand_Pending [of env "''PWD''" h h']
  by (auto simp: pwd_def split: prod.splits promise.splits)

lemma directory_probe_Pending:
  "directory_probe env path h = (Pending, h') \<Longrightarrow> last_call_pending env h'"
  by (auto simp: directory_probe_def split: prod.splits promise.splits
      dest: pwd_Pending cd_Pending)

lemma listing_probe_Pending:
  "listing_probe env path h = (Pending, h') \<Longrightarrow> last_call_pending env h'"
  by (auto simp: listing_probe_def list_dir_def last_call_pending_def startsWith_def Let_def
      split: prod.splits promise.splits)

lemma stat_Pending: "stat env path h = (Pending, h') \<Longrightarrow> last_call_pending env h'"
  by (auto simp: stat_def split: prod.splits promise.splits
      dest: size_of_Pending directory_probe_Pending listing_probe_Pending)

lemma stat_resolves_or_waits:
  "(\<exists>info h'. stat env path h = (Fulfilled info, h')) \<or>
   (\<exists>h'. stat env path h = (Pending, h') \<and> last_call_pending env h')"
proof -
  obtain r h' where s: "stat env path h = (r, h')" by (cases "stat env path h")
  show ?thesis
  proof (cases r)
    case Pending
    with s stat_Pending [of env path h h'] show ?thesis by simp
  next
    case (Fulfilled info)
    with s show ?thesis by simp
  next
    case (Failed e)
    with s stat_not_Failed [of env path h e h'] show ?thesis by simp
  qed
qed

text \<open>
  C10, as stated, says that \<^verbatim>\<open>stat\<close> resolves under any sequence of server replies. It
  resolves only if what it awaits settles. With \<^verbatim>\<open>_sendCommand\<close> of the one-file client,
  a continuation line in answer to \<^verbatim>\<open>SIZE\<close> and nothing after it leaves the promise of
  the command unsettled, also past its deadline; and over a \<^verbatim>\<open>SIZE\<close> that never
  settles, \<^verbatim>\<open>stat\<close> and \<^verbatim>\<open>exists\<close> wait for ever: they neither resolve nor reject, and
  no fallback is tried.
\<close>

theorem C10_stat_waits_counterexample:
  "promise_state
     (run [Response ''213-Status follows'', Timeout 0]
        (snd (sendCommand ''SIZE /pub/readme.txt'' False connected_client))) 0 = None \<and>
   reply silent_server [] ''SIZE /pub/readme.txt'' = Pending \<and>
   stat silent_server ''/pub/readme.txt'' [] = (Pending, [''SIZE /pub/readme.txt'']) \<and>
   exists_path silent_server ''/pub/readme.txt'' [] = (Pending, [''SIZE /pub/readme.txt''])"
  by (simp add: ctl_simps js_simps
      stat_def exists_path_def size_of_def connection_sendCommand_def silent_server_def)

text \<open>
  C10 (amended). Whatever the commands and the listing give back, \<^verbatim>\<open>stat(path)\<close> and
  \<^verbatim>\<open>exists(path)\<close> never reject. \<^verbatim>\<open>stat\<close> resolves with an object unless the call it
  issued last never settles; in particular it resolves when every command and every
  listing settles, and \<^verbatim>\<open>exists\<close> then resolves with the \<^verbatim>\<open>exists\<close> field of that object.
  The object follows the chain of fallbacks: if \<^verbatim>\<open>SIZE\<close>
  succeeds the path is a file of that size; if it fails and the probe with \<^verbatim>\<open>PWD\<close> and
  \<^verbatim>\<open>CWD\<close> succeeds, the path is a directory; if the probe fails too, the parent directory
  is listed and the path exists if a line of the listing contains its last segment; if
  the listing fails, the path does not exist.
\<close>

theorem C10_stat_never_rejects:
  "(\<forall>e h'. stat env path h \<noteq> (Failed e, h')) \<and>
   (\<forall>e h'. exists_path env path h \<noteq> (Failed e, h')) \<and>
   ((\<exists>info h'. stat env path h = (Fulfilled info, h')) \<or>
    (\<exists>h'. stat env path h = (Pending, h') \<and> last_call_pending env h')) \<and>
   ((\<forall>h c. reply env h c \<noteq> Pending) \<and> (\<forall>h p. listing env h p \<noteq> Pending) \<longrightarrow>
      (\<exists>info h'. stat env path h = (Fulfilled info, h') \<and>
                 exists_path env path h = (Fulfilled (st_exists info), h'))) \<and>
   (size_of env path h = (Fulfilled sz, h1) \<longrightarrow>
      stat env path h = (Fulfilled \<lparr>st_exists = True, st_size = Some sz, st_isFile = Some True,
                                    st_isDirectory = Some False\<rparr>, h1)) \<and>
   (size_of env path h = (Failed e1, h1) \<and> directory_probe env path h1 = (Fulfilled info, h2) \<longrightarrow>
      stat env path h = (Fulfilled \<lparr>st_exists = True, st_size = None, st_isFile = Some False,
                                    st_isDirectory = Some True\<rparr>, h2)) \<and>
   (size_of env path h = (Failed e1, h1) \<and> directory_probe env path h1 = (Failed e2, h2) \<and>
    list_dir env (getParentDir path) h2 = (Fulfilled text, h3) \<longrightarrow>
      stat env path h =
        (Fulfilled \<lparr>st_exists = list_ex (includes_str (last (split_on CHR ''/'' path))) (split_on LF text),
                    st_size = None, st_isFile = None, st_isDirectory = None\<rparr>, h3)) \<and>
   (size_of env path h = (Failed e1, h1) \<and> directory_probe env path h1 = (Failed e2, h2) \<and>
    list_dir env (getParentDir path) h2 = (Failed e3, h3) \<longrightarrow>
      stat env path h =
        (Fulfilled \<lparr>st_exists = False, st_size = None, st_isFile = None, st_isDirectory = None\<rparr>, h3))"
proof (intro conjI impI allI)
  fix e h'
  show "stat env path h \<noteq> (Failed e, h')" by (rule stat_not_Failed)
  show "exists_path env path h \<noteq> (Failed e, h')" by (rule exists_path_not_Failed)
next
  show "(\<exists>info h'. stat env path h = (Fulfilled info, h')) \<or>
    (\<exists>h'. stat env path h = (Pending, h') \<and> last_call_pending env h')"
    by (rule stat_resolves_or_waits)
next
  assume "(\<forall>h c. reply env h c \<noteq> Pending) \<and> (\<forall>h p. listing env h p \<noteq> Pending)"
  then obtain info h' where "stat env path h = (Fulfilled info, h')"
    using stat_resolves [of env path h] by blast
  then show "\<exists>info h'. stat env path h = (Fulfilled info, h') \<and>
                 exists_path env path h = (Fulfilled (st_exists info), h')"
    by (simp add: exists_path_def)
next
  assume "size_of env path h = (Fulfilled sz, h1)"
  then show "stat env path h = (Fulfilled \<lparr>st_exists = True, st_size = Some sz, st_isFile = Some True,
                              st_isDirectory = Some False\<rparr>, h1)"
    by (simp add: stat_def)
next
  assume a: "size_of env path h = (Failed e1, h1) \<and> directory_probe env path h1 = (Fulfilled info, h2)"
  then have "info = \<lparr>st_exists = True, st_size = None, st_isFile = Some False, st_isDirectory = Some True\<rparr>"
    by (auto simp: directory_probe_def split: prod.splits promise.splits)
  with a show "stat env path h = (Fulfilled \<lparr>st_exists = True, st_size = None, st_isFile = Some False,
                              st_isDirectory = Some True\<rparr>, h2)"
    by (simp add: stat_def)
next
  assume "size_of env path h = (Failed e1, h1) \<and> directory_probe env path h1 = (Failed e2, h2) \<and>
    list_dir env (getParentDir path) h2 = (Fulfilled text, h3)"
  then show "stat env path h =
        (Fulfilled \<lparr>st_exists = list_ex (includes_str (last (split_on CHR ''/'' path))) (split_on LF text),
              st_size = None, st_isFile = None, st_isDirectory = None\<rparr>, h3)"
    by (simp add: stat_def listing_probe_def)
next
  assume "size_of env path h = (Failed e1, h1) \<and> directory_probe env path h1 = (Failed e2, h2) \<and>
    list_dir env (getParentDir path) h2 = (Failed e3, h3)"
  then show "stat env path h =
        (Fulfilled \<lparr>st_exists = False, st_size = None, st_isFile = None, st_isDirectory = None\<rparr>, h3)"
    by (simp add: stat_def listing_probe_def)
qed

lemmas cmd_simps = size_of_def pwd_def cd_def mkdir_def list_dir_def connection_sendCommand_def
  directory_probe_def

theorem C10_stat_never_rejects_witness:
  "stat file_server ''/pub/readme.txt'' [] =
     (Fulfilled \<lparr>st_exists = True, st_size = Some (Some 1024), st_isFile = Some True,
           st_isDirectory = Some False\<rparr>, [''SIZE /pub/readme.txt'']) \<and>
   stat file_server ''/pub'' [] =
     (Fulfilled \<lparr>st_exists = True, st_size = None, st_isFile = Some False, st_isDirectory = Some True\<rparr>,
      [''SIZE /pub'', ''PWD'', ''CWD /pub'', ''CWD /'']) \<and>
   stat file_server ''/pub/notes'' [] =
     (Fulfilled \<lparr>st_exists = True, st_size = None, st_isFile = None, st_isDirectory = None\<rparr>,
      [''SIZE /pub/notes'', ''PWD'', ''CWD /pub/notes'', ''LIST /pub'']) \<and>
   stat file_server ''/tmp/x'' [] =
     (Fulfilled \<lparr>st_exists = False, st_size = None, st_isFile = None, st_isDirectory = None\<rparr>,
      [''SIZE /tmp/x'', ''PWD'', ''CWD /tmp/x'', ''LIST /tmp'']) \<and>
   (\<exists>info h'. stat file_server ''/tmp/x'' [] = (Fulfilled info, h') \<and>
      exists_path file_server ''/tmp/x'' [] = (Fulfilled (st_exists info), h'))"
proof -
  have st: "(\<forall>h c. reply file_server h c \<noteq> Pending) \<and> (\<forall>h p. listing file_server h p \<noteq> Pending)"
    by (simp add: file_server_def)
  let ?e = "Error ''FTP Error 550: No such file or directory''"
  have s1: "size_of file_server ''/pub/readme.txt'' [] = (Fulfilled (Some 1024), [''SIZE /pub/readme.txt''])"
    by (simp add: cmd_simps file_server_def js_simps)
  have s2: "size_of file_server ''/pub'' [] = (Failed ?e, [''SIZE /pub''])"
    by (simp add: cmd_simps file_server_def)
  have d2: "directory_probe file_server ''/pub'' [''SIZE /pub''] =
      (Fulfilled \<lparr>st_exists = True, st_size = None, st_isFile = Some False, st_isDirectory = Some True\<rparr>,
       [''SIZE /pub'', ''PWD'', ''CWD /pub'', ''CWD /''])"
    by (simp add: cmd_simps file_server_def quoted_at_def line_terminator_def lastIndexOf_def
        substring0_def js_simps)
  have s3: "size_of file_server ''/pub/notes'' [] = (Failed ?e, [''SIZE /pub/notes''])"
    by (simp add: cmd_simps file_server_def)
  have d3: "directory_probe file_server ''/pub/notes'' [''SIZE /pub/notes''] =
      (Failed ?e, [''SIZE /pub/notes'', ''PWD'', ''CWD /pub/notes''])"
    by (simp add: cmd_simps file_server_def quoted_at_def line_terminator_def lastIndexOf_def
        substring0_def js_simps)
  have l3: "list_dir file_server (getParentDir ''/pub/notes'') [''SIZE /pub/notes'', ''PWD'', ''CWD /pub/notes''] =
      (Fulfilled (''readme.txt'' @ [CR, LF] @ ''notes.md'' @ [CR, LF]),
       [''SIZE /pub/notes'', ''PWD'', ''CWD /pub/notes'', ''LIST /pub''])"
    by (simp add: cmd_simps file_server_def path_simps)
  have v3: "list_ex (includes_str (last (split_on CHR ''/'' ''/pub/notes'')))
      (split_on LF (''readme.txt'' @ [CR, LF] @ ''notes.md'' @ [CR, LF]))"
    by (simp add: js_simps)
  have s4: "size_of file_server ''/tmp/x'' [] = (Failed ?e, [''SIZE /tmp/x''])"
    by (simp add: cmd_simps file_server_def)
  have d4: "directory_probe file_server ''/tmp/x'' [''SIZE /tmp/x''] =
      (Failed ?e, [''SIZE /tmp/x'', ''PWD'', ''CWD /tmp/x''])"
    by (simp add: cmd_simps file_server_def quoted_at_def line_terminator_def lastIndexOf_def
        substring0_def js_simps)
  have l4: "list_dir file_server (getParentDir ''/tmp/x'') [''SIZE /tmp/x'', ''PWD'', ''CWD /tmp/x''] =
      (Failed ?e, [''SIZE /tmp/x'', ''PWD'', ''CWD /tmp/x'', ''LIST /tmp''])"
    by (simp add: cmd_simps file_server_def path_simps)
  note t = C10_stat_never_rejects [of file_server]
  have c1: "stat file_server ''/pub/readme.txt'' [] =
     (Fulfilled \<lparr>st_exists = True, st_size = Some (Some 1024), st_isFile = Some True,
           st_isDirectory = Some False\<rparr>, [''SIZE /pub/readme.txt''])"
    using t [of "''/pub/readme.txt''" "[]" "Some 1024" "[''SIZE /pub/readme.txt'']"] s1
    by (simp only: simp_thms)
  have c2: "stat file_server ''/pub'' [] =
     (Fulfilled \<lparr>st_exists = True, st_size = None, st_isFile = Some False, st_isDirectory = Some True\<rparr>,
      [''SIZE /pub'', ''PWD'', ''CWD /pub'', ''CWD /''])"
    using t [of "''/pub''" "[]" _ "[''SIZE /pub'']" ?e _ "[''SIZE /pub'', ''PWD'', ''CWD /pub'', ''CWD /'']"] s2 d2
    by (simp only: simp_thms)
  have c3: "stat file_server ''/pub/notes'' [] =
     (Fulfilled \<lparr>st_exists = True, st_size = None, st_isFile = None, st_isDirectory = None\<rparr>,
      [''SIZE /pub/notes'', ''PWD'', ''CWD /pub/notes'', ''LIST /pub''])"
    using t [of "''/pub/notes''" "[]" _ "[''SIZE /pub/notes'']" ?e _
          "[''SIZE /pub/notes'', ''PWD'', ''CWD /pub/notes'']" ?e
          "''readme.txt'' @ [CR, LF] @ ''notes.md'' @ [CR, LF]"
          "[''SIZE /pub/notes'', ''PWD'', ''CWD /pub/notes'', ''LIST /pub'']"] s3 d3 l3 v3
    by (simp only: simp_thms)
  have c4: "stat file_server ''/tmp/x'' [] =
     (Fulfilled \<lparr>st_exists = False, st_size = None, st_isFile = None, st_isDirectory = None\<rparr>,
      [''SIZE /tmp/x'', ''PWD'', ''CWD /tmp/x'', ''LIST /tmp''])"
    using t [of "''/tmp/x''" "[]" _ "[''SIZE /tmp/x'']" ?e _ "[''SIZE /tmp/x'', ''PWD'', ''CWD /tmp/x'']" ?e _
          "[''SIZE /tmp/x'', ''PWD'', ''CWD /tmp/x'', ''LIST /tmp'']" ?e] s4 d4 l4
    by (simp only: simp_thms)
  have c5: "\<exists>info h'. stat file_server ''/tmp/x'' [] = (Fulfilled info, h') \<and>
      exists_path file_server ''/tmp/x'' [] = (Fulfilled (st_exists info), h')"
    using t [of "''/tmp/x''" "[]"] st by blast
  from c1 c2 c3 c4 c5 show ?thesis by (intro conjI)
qed

section \<open>Transfers\<close>

lemmas transfer_simps = new_transfer_def resolve_def reject_def code_at_least_def send_tolerant_def
  command_response_def command_deadline_def catch_reject_def upload_finalHandler_def
  download_finalHandler_def list_finalHandler_def

lemma run_transfer_append:
  "run_transfer op (xs @ ys) t = run_transfer op ys (run_transfer op xs t)"
  by (induction xs arbitrary: t) simp_all

lemma line_550:
  "parseInt ''550'' = Some 550"
  "string_of_number (Some 550) = ''550''"
  "charAt 3 ''550 No such file'' = '' ''"
  by (simp_all add: js_simps)

lemma responseHandler_550:
  "responseHandler p ''550 No such file'' = Settle (Rejected (Error ''FTP Error 550: No such file''))"
  by (simp add: responseHandler_def settle_reply_def Let_def line_550 code_between_def)

subsection \<open>The command's promise and the transfer\<close>

lemma catch_reject_finalHandler [simp]: "t_finalHandler (catch_reject r t) = t_finalHandler t"
  by (simp add: catch_reject_def reject_def split: reaction.splits outcome.splits)

lemma catch_reject_settled: "t_result t \<noteq> Pending \<Longrightarrow> t_result (catch_reject r t) = t_result t"
  by (simp add: catch_reject_def reject_def split: reaction.splits outcome.splits)

lemma catch_reject_result:
  "t_result t = Pending \<Longrightarrow>
   t_result (catch_reject r t) = (case r of Settles (Rejected e) \<Rightarrow> Failed e | _ \<Rightarrow> Pending)"
  by (simp add: catch_reject_def reject_def split: reaction.splits outcome.splits)

lemma command_response_finalHandler [simp]:
  "t_finalHandler (command_response conn line t) = t_finalHandler t"
  by (simp add: command_response_def split: option.splits)

lemma command_response_settled:
  "t_result t \<noteq> Pending \<Longrightarrow> t_result (command_response conn line t) = t_result t"
  by (simp add: command_response_def catch_reject_settled split: option.splits)

lemma command_deadline_finalHandler [simp]:
  "t_finalHandler (command_deadline conn t) = t_finalHandler t"
  by (simp add: command_deadline_def split: option.splits)

lemma command_deadline_settled:
  "t_result t \<noteq> Pending \<Longrightarrow> t_result (command_deadline conn t) = t_result t"
  by (simp add: command_deadline_def catch_reject_settled split: option.splits)

lemma send_tolerant_finalHandler [simp]:
  "t_finalHandler (send_tolerant conn cmd t) = t_finalHandler t"
  by (simp add: send_tolerant_def)

lemma send_tolerant_settled:
  "t_result t \<noteq> Pending \<Longrightarrow> t_result (send_tolerant conn cmd t) = t_result t"
  by (simp add: send_tolerant_def catch_reject_settled)

subsection \<open>After the close, an unsettled transfer has its \<^verbatim>\<open>finalHandler\<close> registered\<close>

lemma upload_finalHandler_keeps:
  "t_finalHandler t \<or> t_result t \<noteq> Pending \<Longrightarrow>
   t_finalHandler (upload_finalHandler path line t) \<or> t_result (upload_finalHandler path line t) \<noteq> Pending"
  by (auto simp: upload_finalHandler_def resolve_def reject_def Let_def)

lemma download_finalHandler_keeps:
  "t_finalHandler t \<or> t_result t \<noteq> Pending \<Longrightarrow>
   t_finalHandler (download_finalHandler path line t) \<or> t_result (download_finalHandler path line t) \<noteq> Pending"
  by (auto simp: download_finalHandler_def resolve_def reject_def Let_def)

lemma upload_v21_keeps:
  assumes "e \<noteq> CloseTimer" "t_finalHandler t \<or> t_result t \<noteq> Pending"
  shows "t_finalHandler (upload_v21 conn buffer path e t) \<or> t_result (upload_v21 conn buffer path e t) \<noteq> Pending"
proof (cases e)
  case DataConnected
  with assms(2) show ?thesis by (auto simp: send_tolerant_settled)
next
  case (DataChunk c)
  with assms(2) show ?thesis by simp
next
  case (DataError err)
  with assms(2) show ?thesis by (auto simp: reject_def)
next
  case DataClosed
  then show ?thesis by simp
next
  case (ControlLine line)
  from upload_finalHandler_keeps [OF assms(2), of path line] ControlLine show ?thesis
    by (auto simp: command_response_settled)
next
  case CommandDeadline
  with assms(2) show ?thesis by (auto simp: command_deadline_settled)
next
  case CloseTimer
  with assms(1) show ?thesis by simp
qed

lemma download_v21_keeps:
  assumes "e \<noteq> CloseTimer" "t_finalHandler t \<or> t_result t \<noteq> Pending"
  shows "t_finalHandler (download_v21 conn path e t) \<or> t_result (download_v21 conn path e t) \<noteq> Pending"
proof (cases e)
  case DataConnected
  with assms(2) show ?thesis by (auto simp: send_tolerant_settled)
next
  case (DataChunk c)
  with assms(2) show ?thesis by simp
next
  case (DataError err)
  with assms(2) show ?thesis by (auto simp: reject_def)
next
  case DataClosed
  then show ?thesis by simp
next
  case (ControlLine line)
  from download_finalHandler_keeps [OF assms(2), of path line] ControlLine show ?thesis
    by (auto simp: command_response_settled)
next
  case CommandDeadline
  with assms(2) show ?thesis by (auto simp: command_deadline_settled)
next
  case CloseTimer
  with assms(1) show ?thesis by simp
qed

lemma upload_v21_run_keeps:
  "CloseTimer \<notin> set evs \<Longrightarrow> t_finalHandler t \<or> t_result t \<noteq> Pending \<Longrightarrow>
   t_finalHandler (run_transfer (upload_v21 conn buffer path) evs t) \<or>
   t_result (run_transfer (upload_v21 conn buffer path) evs t) \<noteq> Pending"
proof (induction evs arbitrary: t)
  case Nil
  then show ?case by simp
next
  case (Cons e evs)
  from Cons.prems have "e \<noteq> CloseTimer" "CloseTimer \<notin> set evs" by auto
  with Cons.IH [of "upload_v21 conn buffer path e t"] upload_v21_keeps [of e t conn buffer path] Cons.prems(2)
  show ?case by simp
qed

lemma download_v21_run_keeps:
  "CloseTimer \<notin> set evs \<Longrightarrow> t_finalHandler t \<or> t_result t \<noteq> Pending \<Longrightarrow>
   t_finalHandler (run_transfer (download_v21 conn path) evs t) \<or>
   t_result (run_transfer (download_v21 conn path) evs t) \<noteq> Pending"
proof (induction evs arbitrary: t)
  case Nil
  then show ?case by simp
next
  case (Cons e evs)
  from Cons.prems have "e \<noteq> CloseTimer" "CloseTimer \<notin> set evs" by auto
  with Cons.IH [of "download_v21 conn path e t"] download_v21_keeps [of e t conn path] Cons.prems(2)
  show ?case by simp
qed

subsection \<open>The line \<^verbatim>\<open>550 No such file\<close>\<close>

lemma upload_v21_550:
  assumes "t_result t = Pending" "t_finalHandler t"
  shows "t_result (upload_v21 conn buffer path (ControlLine ''550 No such file'') t) =
     Failed (Error (''Upload failed - FTP Error 550: No such file (path: '' @ path @ '')''))"
proof -
  have "t_result (upload_finalHandler path ''550 No such file'' t) =
     Failed (Error (''Upload failed - FTP Error 550: No such file (path: '' @ path @ '')''))"
    using assms by (simp add: upload_finalHandler_def reject_def code_at_least_def line_550 Let_def)
  then show ?thesis by (simp add: command_response_settled)
qed

lemma download_v21_550:
  assumes "t_result t = Pending" "t_finalHandler t"
  shows "t_result (download_v21 conn path (ControlLine ''550 No such file'') t) =
     Failed (Error (''Download failed - FTP Error 550: No such file (path: '' @ path @ '')''))"
proof -
  have "t_result (download_finalHandler path ''550 No such file'' t) =
     Failed (Error (''Download failed - FTP Error 550: No such file (path: '' @ path @ '')''))"
    using assms by (simp add: download_finalHandler_def reject_def code_at_least_def line_550 Let_def)
  then show ?thesis by (simp add: command_response_settled)
qed

lemma upload_v21_after_close:
  assumes "CloseTimer \<notin> set evs"
    and "t_result (run_transfer (upload_v21 conn buffer path) (DataClosed # evs) t) = Pending"
  shows "t_result (run_transfer (upload_v21 conn buffer path)
            (DataClosed # evs @ [ControlLine ''550 No such file'']) t) =
     Failed (Error (''Upload failed - FTP Error 550: No such file (path: '' @ path @ '')''))"
proof -
  let ?t = "run_transfer (upload_v21 conn buffer path) (DataClosed # evs) t"
  have "t_finalHandler ?t \<or> t_result ?t \<noteq> Pending"
    using upload_v21_run_keeps [OF assms(1), of "upload_v21 conn buffer path DataClosed t" conn buffer path]
    by simp
  with assms(2) have "t_finalHandler ?t" by simp
  with assms(2) upload_v21_550 [of ?t conn buffer path]
  have "t_result (upload_v21 conn buffer path (ControlLine ''550 No such file'') ?t) =
     Failed (Error (''Upload failed - FTP Error 550: No such file (path: '' @ path @ '')''))"
    by simp
  moreover have "run_transfer (upload_v21 conn buffer path)
            (DataClosed # evs @ [ControlLine ''550 No such file'']) t =
      upload_v21 conn buffer path (ControlLine ''550 No such file'') ?t"
    using run_transfer_append [of "upload_v21 conn buffer path" "DataClosed # evs"
        "[ControlLine ''550 No such file'']" t]
    by simp
  ultimately show ?thesis by simp
qed

lemma download_v21_after_close:
  assumes "CloseTimer \<notin> set evs"
    and "t_result (run_transfer (download_v21 conn path) (DataClosed # evs) t) = Pending"
  shows "t_result (run_transfer (download_v21 conn path)
            (DataClosed # evs @ [ControlLine ''550 No such file'']) t) =
     Failed (Error (''Download failed - FTP Error 550: No such file (path: '' @ path @ '')''))"
proof -
  let ?t = "run_transfer (download_v21 conn path) (DataClosed # evs) t"
  have "t_finalHandler ?t \<or> t_result ?t \<noteq> Pending"
    using download_v21_run_keeps [OF assms(1), of "download_v21 conn path DataClosed t" conn path]
    by simp
  with assms(2) have "t_finalHandler ?t" by simp
  with assms(2) download_v21_550 [of ?t conn path]
  have "t_result (download_v21 conn path (ControlLine ''550 No such file'') ?t) =
     Failed (Error (''Download failed - FTP Error 550: No such file (path: '' @ path @ '')''))"
    by simp
  moreover have "run_transfer (download_v21 conn path)
            (DataClosed # evs @ [ControlLine ''550 No such file'']) t =
      download_v21 conn path (ControlLine ''550 No such file'') ?t"
    using run_transfer_append [of "download_v21 conn path" "DataClosed # evs"
        "[ControlLine ''550 No such file'']" t]
    by simp
  ultimately show ?thesis by simp
qed

lemma list_v21_550:
  assumes "t_result t = Pending"
  shows "t_result (list_v21 conn path (ControlLine ''550 No such file'') t) =
     (case t_command t of
        None \<Rightarrow> Pending
      | Some c \<Rightarrow>
          (case conn_response conn ''550 No such file'' c of
             Settles (Rejected e) \<Rightarrow> Failed e
           | _ \<Rightarrow> Pending))"
proof -
  have f: "list_finalHandler ''550 No such file'' t = t"
    by (simp add: list_finalHandler_def line_550 Let_def)
  show ?thesis
    using assms by (simp add: f command_response_def catch_reject_result split: option.splits)
qed

lemma list_v21_550_one_file:
  assumes "t_result t = Pending" "t_command t = Some p"
  shows "t_result (list_v21 one_file_sendCommand path (ControlLine ''550 No such file'') t) =
     Failed (Error ''FTP Error 550: No such file'')"
  using assms list_v21_550 [of t one_file_sendCommand path]
  by (simp add: one_file_sendCommand_def responseHandler_550)

subsection \<open>The transfers that resolve on the close\<close>

lemma v22_control_lines:
  "run_transfer (upload_v22 buffer path) (map ControlLine ls) t = t"
  "run_transfer (download_v22 path) (map ControlLine ls) t = t"
  "run_transfer (list_v22 path) (map ControlLine ls) t = t"
  by (induction ls) simp_all

lemma v22_resolve_on_close:
  "t_result t = Pending \<Longrightarrow>
   t_result (run_transfer (upload_v22 buffer path) (DataClosed # map ControlLine ls @ [CloseTimer]) t) =
     Fulfilled Nothing"
  "t_result t = Pending \<Longrightarrow>
   t_result (run_transfer (download_v22 path) (DataClosed # map ControlLine ls @ [CloseTimer]) t) =
     Fulfilled (Data (concat (t_chunks t)))"
  "t_result t = Pending \<Longrightarrow>
   t_result (run_transfer (list_v22 path) (DataClosed # map ControlLine ls @ [CloseTimer]) t) =
     Fulfilled (Data (concat (t_chunks t)))"
  by (simp_all add: run_transfer_append v22_control_lines resolve_def)

subsection \<open>C1: a failure reply after the data channel closed\<close>

text \<open>
  C1, as stated, holds for every transfer. The later \<^verbatim>\<open>download\<close> resolves 10 ms after
  the data socket closed and listens to no reply: with no byte received and
  \<^verbatim>\<open>550 No such file\<close> delivered before the timer fires, it resolves with the empty
  buffer.
\<close>

theorem C1_empty_success_counterexample:
  "t_result (run_transfer (download_v22 ''missing.txt'')
      [DataConnected, DataClosed, ControlLine ''550 No such file'', CloseTimer]
      (new_transfer :: unit transfer)) =
     Fulfilled (Data [])"
  by (simp add: transfer_simps)

text \<open>
  The deadline of the command may come between the close and the reply. With
  \<^verbatim>\<open>_sendCommand\<close> of the one-file client and no line since the command was sent, the
  deadline rejects the transfer, which the later line \<^verbatim>\<open>550 No such file\<close> finds settled.
\<close>

lemma upload_v21_deadline_first:
  "t_result (run_transfer (upload_v21 one_file_sendCommand ''data'' ''/ro/f'')
      [DataConnected, DataClosed, CommandDeadline, ControlLine ''550 No such file''] new_transfer) =
     Failed (Error ''Command timeout: STOR /ro/f'')"
  by (simp add: transfer_simps one_file_sendCommand_def js_simps line_550)

text \<open>
  C1 (amended). In the transfers that wait for the final reply, whatever \<^verbatim>\<open>sendCommand\<close>
  does: take an \<^verbatim>\<open>upload\<close> or a \<^verbatim>\<open>download\<close> whose data channel has closed, let any events
  follow the close except the timer set at the close, and let the transfer be still
  unsettled after them (so neither a reply nor the deadline of the command has settled it);
  if the line \<^verbatim>\<open>550 No such file\<close> arrives then, the transfer is rejected with
  \<^verbatim>\<open>Upload failed - FTP Error 550: No such file (path: ...)\<close>, or the same with
  \<^verbatim>\<open>Download failed\<close>. The \<^verbatim>\<open>finalHandler\<close> of \<^verbatim>\<open>list\<close> has no branch for a failure: an
  unsettled \<^verbatim>\<open>list\<close> is rejected by that line exactly if its \<^verbatim>\<open>LIST\<close> command is still
  pending and the line rejects the promise of the command, and then with the error of the
  command; otherwise it stays unsettled. With \<^verbatim>\<open>_sendCommand\<close> of the one-file client for
  \<^verbatim>\<open>sendCommand\<close> and the command still pending, that error is
  \<^verbatim>\<open>FTP Error 550: No such file\<close>. The transfers that resolve when the data socket closes
  resolve, when the timer set at the close fires, with what was received, whatever lines
  the control channel delivers between the close and the timer.
\<close>

theorem C1_final_reply_joins_transfer:
  "(CloseTimer \<notin> set evs \<and>
    t_result (run_transfer (upload_v21 conn buffer path) (DataClosed # evs) t) = Pending \<longrightarrow>
      t_result (run_transfer (upload_v21 conn buffer path)
         (DataClosed # evs @ [ControlLine ''550 No such file'']) t) =
        Failed (Error (''Upload failed - FTP Error 550: No such file (path: '' @ path @ '')''))) \<and>
   (CloseTimer \<notin> set evs \<and>
    t_result (run_transfer (download_v21 conn path) (DataClosed # evs) t) = Pending \<longrightarrow>
      t_result (run_transfer (download_v21 conn path)
         (DataClosed # evs @ [ControlLine ''550 No such file'']) t) =
        Failed (Error (''Download failed - FTP Error 550: No such file (path: '' @ path @ '')''))) \<and>
   (t_result t = Pending \<longrightarrow>
      t_result (list_v21 conn path (ControlLine ''550 No such file'') t) =
        (case t_command t of
           None \<Rightarrow> Pending
         | Some c \<Rightarrow>
             (case conn_response conn ''550 No such file'' c of
                Settles (Rejected e) \<Rightarrow> Failed e
              | _ \<Rightarrow> Pending))) \<and>
   (t_result tp = Pending \<and> t_command tp = Some p \<longrightarrow>
      t_result (list_v21 one_file_sendCommand path (ControlLine ''550 No such file'') tp) =
        Failed (Error ''FTP Error 550: No such file'')) \<and>
   (t_result t = Pending \<longrightarrow>
      t_result (run_transfer (upload_v22 buffer path) (DataClosed # map ControlLine ls @ [CloseTimer]) t) =
        Fulfilled Nothing \<and>
      t_result (run_transfer (download_v22 path) (DataClosed # map ControlLine ls @ [CloseTimer]) t) =
        Fulfilled (Data (concat (t_chunks t))) \<and>
      t_result (run_transfer (list_v22 path) (DataClosed # map ControlLine ls @ [CloseTimer]) t) =
        Fulfilled (Data (concat (t_chunks t))))"
proof (intro conjI impI)
  assume "CloseTimer \<notin> set evs \<and>
    t_result (run_transfer (upload_v21 conn buffer path) (DataClosed # evs) t) = Pending"
  then show "t_result (run_transfer (upload_v21 conn buffer path)
         (DataClosed # evs @ [ControlLine ''550 No such file'']) t) =
        Failed (Error (''Upload failed - FTP Error 550: No such file (path: '' @ path @ '')''))"
    using upload_v21_after_close [of evs conn buffer path t] by blast
next
  assume "CloseTimer \<notin> set evs \<and>
    t_result (run_transfer (download_v21 conn path) (DataClosed # evs) t) = Pending"
  then show "t_result (run_transfer (download_v21 conn path)
         (DataClosed # evs @ [ControlLine ''550 No such file'']) t) =
        Failed (Error (''Download failed - FTP Error 550: No such file (path: '' @ path @ '')''))"
    using download_v21_after_close [of evs conn path t] by blast
next
  assume "t_result t = Pending"
  then show "t_result (list_v21 conn path (ControlLine ''550 No such file'') t) =
        (case t_command t of
           None \<Rightarrow> Pending
         | Some c \<Rightarrow>
             (case conn_response conn ''550 No such file'' c of
                Settles (Rejected e) \<Rightarrow> Failed e
              | _ \<Rightarrow> Pending))"
    by (rule list_v21_550)
next
  assume "t_result tp = Pending \<and> t_command tp = Some p"
  then show "t_result (list_v21 one_file_sendCommand path (ControlLine ''550 No such file'') tp) =
        Failed (Error ''FTP Error 550: No such file'')"
    using list_v21_550_one_file [of tp p path] by blast
next
  assume a: "t_result t = Pending"
  then show "t_result (run_transfer (upload_v22 buffer path) (DataClosed # map ControlLine ls @ [CloseTimer]) t) =
        Fulfilled Nothing"
    by (rule v22_resolve_on_close(1))
  from a show "t_result (run_transfer (download_v22 path) (DataClosed # map ControlLine ls @ [CloseTimer]) t) =
        Fulfilled (Data (concat (t_chunks t)))"
    by (rule v22_resolve_on_close(2))
  from a show "t_result (run_transfer (list_v22 path) (DataClosed # map ControlLine ls @ [CloseTimer]) t) =
        Fulfilled (Data (concat (t_chunks t)))"
    by (rule v22_resolve_on_close(3))
qed

theorem C1_final_reply_joins_transfer_witness:
  "t_result (run_transfer (upload_v21 one_file_sendCommand ''data'' ''/ro/f'')
      (DataClosed # [ControlLine ''150 Ok'', CommandDeadline] @ [ControlLine ''550 No such file''])
      (upload_v21 one_file_sendCommand ''data'' ''/ro/f'' DataConnected new_transfer)) =
     Failed (Error ''Upload failed - FTP Error 550: No such file (path: /ro/f)'') \<and>
   t_result (run_transfer (download_v21 one_file_sendCommand ''f'')
      (DataClosed # [] @ [ControlLine ''550 No such file''])
      (download_v21 one_file_sendCommand ''f'' DataConnected new_transfer)) =
     Failed (Error ''Download failed - FTP Error 550: No such file (path: f)'') \<and>
   t_result (list_v21 one_file_sendCommand ''d'' (ControlLine ''550 No such file'')
      (run_transfer (list_v21 one_file_sendCommand ''d'') [DataConnected, DataClosed] new_transfer)) =
     Failed (Error ''FTP Error 550: No such file'') \<and>
   t_result (run_transfer (list_v22 ''d'')
      (DataClosed # map ControlLine [''550 No such file''] @ [CloseTimer])
      (list_v22 ''d'' DataConnected (new_transfer :: pending transfer))) = Fulfilled (Data [])"
proof -
  let ?u = "upload_v21 one_file_sendCommand ''data'' ''/ro/f'' DataConnected new_transfer"
  let ?d = "download_v21 one_file_sendCommand ''f'' DataConnected new_transfer"
  let ?l = "run_transfer (list_v21 one_file_sendCommand ''d'') [DataConnected, DataClosed] new_transfer"
  let ?m = "list_v22 ''d'' DataConnected (new_transfer :: pending transfer)"
  let ?p = "\<lparr>p_id = 0, p_command = ''LIST d'', p_allowPreliminary = True, p_timer = True\<rparr>"
  have u: "CloseTimer \<notin> set [ControlLine ''150 Ok'', CommandDeadline] \<and>
      t_result (run_transfer (upload_v21 one_file_sendCommand ''data'' ''/ro/f'')
        (DataClosed # [ControlLine ''150 Ok'', CommandDeadline]) ?u) = Pending"
    by (simp add: transfer_simps one_file_sendCommand_def responseHandler_def js_simps)
  have d: "CloseTimer \<notin> set [] \<and>
      t_result (run_transfer (download_v21 one_file_sendCommand ''f'') (DataClosed # []) ?d) = Pending"
    by (simp add: transfer_simps one_file_sendCommand_def)
  have l: "t_result ?l = Pending \<and> t_command ?l = Some ?p"
    by (simp add: transfer_simps one_file_sendCommand_def)
  have m: "t_result ?m = Pending" "t_chunks ?m = []" by (simp_all add: transfer_simps)
  have c1: "t_result (run_transfer (upload_v21 one_file_sendCommand ''data'' ''/ro/f'')
      (DataClosed # [ControlLine ''150 Ok'', CommandDeadline] @ [ControlLine ''550 No such file'']) ?u) =
     Failed (Error (''Upload failed - FTP Error 550: No such file (path: '' @ ''/ro/f'' @ '')''))"
    using C1_final_reply_joins_transfer
      [of "[ControlLine ''150 Ok'', CommandDeadline]" one_file_sendCommand "''data''" "''/ro/f''" ?u] u
    by blast
  have c2: "t_result (run_transfer (download_v21 one_file_sendCommand ''f'')
      (DataClosed # [] @ [ControlLine ''550 No such file'']) ?d) =
     Failed (Error (''Download failed - FTP Error 550: No such file (path: '' @ ''f'' @ '')''))"
    using C1_final_reply_joins_transfer [of "[]" one_file_sendCommand _ "''f''" ?d] d
    by blast
  have c3: "t_result (list_v21 one_file_sendCommand ''d'' (ControlLine ''550 No such file'') ?l) =
     Failed (Error ''FTP Error 550: No such file'')"
    using C1_final_reply_joins_transfer [of _ _ _ "''d''" _ ?l ?p] l
    by blast
  have c3': "t_result (list_v21 one_file_sendCommand ''d'' (ControlLine ''550 No such file'') ?l) =
     (case t_command ?l of
        None \<Rightarrow> Pending
      | Some c \<Rightarrow>
          (case conn_response one_file_sendCommand ''550 No such file'' c of
             Settles (Rejected e) \<Rightarrow> Failed e
           | _ \<Rightarrow> Pending))"
    using C1_final_reply_joins_transfer [of _ one_file_sendCommand _ "''d''" ?l] l
    by blast
  have c4: "t_result (run_transfer (list_v22 ''d'')
      (DataClosed # map ControlLine [''550 No such file''] @ [CloseTimer]) ?m) =
      Fulfilled (Data (concat (t_chunks ?m)))"
    using C1_final_reply_joins_transfer [of _ _ _ "''d''" ?m _ _ "[''550 No such file'']"] m(1)
    by blast
  from c1 c2 c3 c3' c4 m(2) show ?thesis by simp
qed

end
